theory Spec2Isabelle
  imports Complex_Main "HOL-Library.Product_Lexorder" "HOL-Library.List_Lexorder"
begin

section \<open>TAPAS tokenization: table linearisation and numeric alignment\<close>

text \<open>
  A shallow embedding of the table-to-sequence core of
  \<^verbatim>\<open>src/transformers/tokenization_tapas.py\<close>. Python integers are \<open>int\<close>,
  indices produced by \<^verbatim>\<open>enumerate\<close> are \<open>nat\<close>, exceptions are values of
  \<open>error + 'a\<close>. Names follow the source; a leading underscore of a Python name is
  dropped, since an Isabelle name cannot start with one.
\<close>

subsection \<open>Errors and data\<close>

datatype error =
    ValueError string
  | IndexError
  | KeyError
  | TypeError
  | AttributeError
  | AssertionError
  | RuntimeError

type_synonym TableValue = "string \<times> int \<times> int"

record TokenCoordinates =
  column_index :: nat
  row_index :: nat
  token_index :: nat

record TokenizedTable =
  rows :: "string list list list"
  selected_tokens :: "TokenCoordinates list"

record SerializedExample =
  tokens :: "string list"
  column_ids :: "int list"
  row_ids :: "int list"
  segment_ids :: "int list"

text \<open>
  The table is a pandas frame of text cells. It is rectangular by construction, so it is
  modelled by its column names, its number of rows and its cell function; the row labels
  are the default ones, \<open>0, 1, ...\<close>, so that \<^verbatim>\<open>iterrows\<close> yields each row with
  its position.
\<close>

record DataFrame =
  columns :: "string list"
  num_table_rows :: nat
  iloc :: "nat \<Rightarrow> nat \<Rightarrow> string"

text \<open>
  The tokenizer object: its configuration, and the two services of the base class that the
  core uses (the subword tokenizer and the vocabulary lookup).
\<close>

record TapasTokenizer =
  model_max_length :: int
  cell_trim_length :: int
  max_column_id :: int
  max_row_id :: int
  strip_column_names :: bool
  update_answer_coordinates :: bool
  drop_rows_to_fit :: bool
  cls_token :: string
  sep_token :: string
  tokenize :: "string \<Rightarrow> string list"
  convert_token_to_id :: "string \<Rightarrow> int"

definition is_inner_wordpiece :: "string \<Rightarrow> bool" where
  "is_inner_wordpiece token = (take 2 token = ''##'')"

subsection \<open>Table tokenizer and coordinate indexer\<close>

definition shape0 :: "DataFrame \<Rightarrow> nat" where
  "shape0 table = num_table_rows table"

definition shape1 :: "DataFrame \<Rightarrow> nat" where
  "shape1 table = length (columns table)"

definition iterrows :: "DataFrame \<Rightarrow> (nat \<times> string list) list" where
  "iterrows table =
     map (\<lambda>r. (r, map (iloc table r) [0..<shape1 table])) [0..<shape0 table]"

definition token_coordinates :: "string list list list \<Rightarrow> TokenCoordinates list" where
  "token_coordinates tokenized_rows =
     concat (map (\<lambda>(r, row).
       concat (map (\<lambda>(c, cell).
         map (\<lambda>(k, _). \<lparr>column_index = c, row_index = r, token_index = k\<rparr>)
             (enumerate 0 cell))
         (enumerate 0 row)))
       (enumerate 0 tokenized_rows))"

definition tokenize_table :: "TapasTokenizer \<Rightarrow> DataFrame \<Rightarrow> TokenizedTable" where
  "tokenize_table self table =
     (let header = map (\<lambda>column. if strip_column_names self then tokenize self ''''
                                 else tokenize self column) (columns table);
          body = map (\<lambda>(idx, row). map (tokenize self) row) (iterrows table);
          tokenized_rows = header # body
      in \<lparr>rows = tokenized_rows, selected_tokens = token_coordinates tokenized_rows\<rparr>)"

subsection \<open>Budget fitter\<close>

definition question_encoding_cost :: "string list \<Rightarrow> int" where
  "question_encoding_cost question_tokens = int (length question_tokens) + 2"

definition get_token_budget :: "TapasTokenizer \<Rightarrow> string list \<Rightarrow> int" where
  "get_token_budget self question_tokens =
     model_max_length self - question_encoding_cost question_tokens"

text \<open>
  The \<^verbatim>\<open>while\<close> loop of \<^verbatim>\<open>_get_table_values\<close> walks from a token down to the first
  piece of its word; it leaves \<open>-1\<close> when every piece down to the start of the cell is an
  inner piece. It starts at an index that was just read, so every read is in range.
\<close>

fun word_begin_index :: "string list \<Rightarrow> nat \<Rightarrow> int" where
  "word_begin_index cell 0 = (if is_inner_wordpiece (cell ! 0) then - 1 else 0)"
| "word_begin_index cell (Suc i) =
     (if is_inner_wordpiece (cell ! Suc i) then word_begin_index cell i else int (Suc i))"

text \<open>
  One turn of the \<^verbatim>\<open>for\<close> loop of \<^verbatim>\<open>_get_table_values\<close>: \<open>Inr None\<close> is
  \<^verbatim>\<open>continue\<close>, \<open>Inr (Some v)\<close> is \<^verbatim>\<open>yield v\<close>, and a coordinate outside the rows
  raises.
\<close>

definition table_value ::
  "TokenizedTable \<Rightarrow> int \<Rightarrow> int \<Rightarrow> int \<Rightarrow> TokenCoordinates \<Rightarrow> error + TableValue option" where
  "table_value table num_columns num_rows num_tokens tc =
     (if int (row_index tc) \<ge> num_rows + 1 then Inr None
      else if int (column_index tc) \<ge> num_columns then Inr None
      else if row_index tc \<ge> length (rows table) then Inl IndexError
      else if column_index tc \<ge> length (rows table ! row_index tc) then Inl IndexError
      else let cell = rows table ! row_index tc ! column_index tc in
        if token_index tc \<ge> length cell then Inl IndexError
        else let token = cell ! token_index tc in
          if word_begin_index cell (token_index tc) \<ge> num_tokens then Inr None
          else Inr (Some (token, int (column_index tc) + 1, int (row_index tc))))"

fun table_values_of ::
  "TokenizedTable \<Rightarrow> int \<Rightarrow> int \<Rightarrow> int \<Rightarrow> TokenCoordinates list \<Rightarrow> error + TableValue list" where
  "table_values_of table num_columns num_rows num_tokens [] = Inr []"
| "table_values_of table num_columns num_rows num_tokens (tc # tcs) =
     (case table_value table num_columns num_rows num_tokens tc of
        Inl e \<Rightarrow> Inl e
      | Inr v \<Rightarrow>
          (case table_values_of table num_columns num_rows num_tokens tcs of
             Inl e \<Rightarrow> Inl e
           | Inr vs \<Rightarrow> Inr (case v of None \<Rightarrow> vs | Some x \<Rightarrow> x # vs)))"

definition get_table_values ::
  "TokenizedTable \<Rightarrow> int \<Rightarrow> int \<Rightarrow> int \<Rightarrow> error + TableValue list" where
  "get_table_values table num_columns num_rows num_tokens =
     table_values_of table num_columns num_rows num_tokens (selected_tokens table)"

definition get_table_boundaries :: "TapasTokenizer \<Rightarrow> TokenizedTable \<Rightarrow> int \<times> int \<times> int" where
  "get_table_boundaries self table =
     fold (\<lambda>tc (max_num_rows, max_num_columns, max_num_tokens).
             (min (max_row_id self) (max max_num_rows (int (row_index tc) + 1)),
              min (max_column_id self) (max max_num_columns (int (column_index tc) + 1)),
              max max_num_tokens (int (token_index tc) + 1)))
          (selected_tokens table) (0, 0, 0)"

definition get_table_cost :: "TokenizedTable \<Rightarrow> int \<Rightarrow> int \<Rightarrow> int \<Rightarrow> error + int" where
  "get_table_cost table num_columns num_rows num_tokens =
     (case get_table_values table num_columns num_rows num_tokens of
        Inl e \<Rightarrow> Inl e
      | Inr vs \<Rightarrow> Inr (int (length vs)))"

text \<open>
  The \<^verbatim>\<open>for num_tokens in range(max_num_tokens + 1)\<close> loop with its \<^verbatim>\<open>break\<close>:
  the result is the value of \<open>num_tokens\<close> after the loop.
\<close>

fun scan_num_tokens :: "(int \<Rightarrow> error + int) \<Rightarrow> int \<Rightarrow> int list \<Rightarrow> int \<Rightarrow> error + int" where
  "scan_num_tokens cost token_budget [] num_tokens = Inr num_tokens"
| "scan_num_tokens cost token_budget (k # ks) num_tokens =
     (case cost (k + 1) of
        Inl e \<Rightarrow> Inl e
      | Inr c \<Rightarrow> if c > token_budget then Inr k else scan_num_tokens cost token_budget ks k)"

definition capped_max_num_tokens :: "TapasTokenizer \<Rightarrow> TokenizedTable \<Rightarrow> int" where
  "capped_max_num_tokens self tokenized_table =
     (let max_num_tokens = snd (snd (get_table_boundaries self tokenized_table))
      in if cell_trim_length self \<ge> 0 \<and> max_num_tokens > cell_trim_length self
         then cell_trim_length self else max_num_tokens)"

definition get_max_num_tokens ::
  "TapasTokenizer \<Rightarrow> string list \<Rightarrow> TokenizedTable \<Rightarrow> int \<Rightarrow> int \<Rightarrow> error + int option" where
  "get_max_num_tokens self question_tokens tokenized_table num_columns num_rows =
     (let token_budget = get_token_budget self question_tokens;
          max_num_tokens = capped_max_num_tokens self tokenized_table
      in case scan_num_tokens (get_table_cost tokenized_table num_columns num_rows)
                token_budget [0..max_num_tokens] 0 of
           Inl e \<Rightarrow> Inl e
         | Inr num_tokens \<Rightarrow>
             if num_tokens < max_num_tokens
             then (if cell_trim_length self \<ge> 0 then Inr None
                   else if num_tokens = 0 then Inr None
                   else Inr (Some num_tokens))
             else Inr (Some num_tokens))"

subsection \<open>Serializer\<close>

definition serialize_text ::
  "TapasTokenizer \<Rightarrow> string list \<Rightarrow> string list \<times> int list \<times> int list \<times> int list" where
  "serialize_text self question_tokens =
     (cls_token self # question_tokens,
      0 # map (\<lambda>_. 0) question_tokens,
      0 # map (\<lambda>_. 0) question_tokens,
      0 # map (\<lambda>_. 0) question_tokens)"

definition serialize ::
  "TapasTokenizer \<Rightarrow> string list \<Rightarrow> TokenizedTable \<Rightarrow> int \<Rightarrow> int \<Rightarrow> int
     \<Rightarrow> error + SerializedExample" where
  "serialize self question_tokens table num_columns num_rows num_tokens =
     (case serialize_text self question_tokens of
        (toks, segs, cols, rws) \<Rightarrow>
          (case get_table_values table num_columns num_rows num_tokens of
             Inl e \<Rightarrow> Inl e
           | Inr vs \<Rightarrow>
               Inr \<lparr>tokens = toks @ [sep_token self] @ map fst vs,
                    column_ids = cols @ [0] @ map (\<lambda>v. fst (snd v)) vs,
                    row_ids = rws @ [0] @ map (\<lambda>v. snd (snd v)) vs,
                    segment_ids = segs @ [0] @ map (\<lambda>_. 1) vs\<rparr>))"

text \<open>
  The \<^verbatim>\<open>while True\<close> loop of \<^verbatim>\<open>_to_trimmed_features\<close>, which returns the
  number of rows and the token cap it settles on. With a negative number of rows and row
  dropping the loop of the source does not end, so the model is a partial function:
  \<open>None\<close> is a run that never returns.
\<close>

partial_function (option) trimmed_fit ::
  "TapasTokenizer \<Rightarrow> string list \<Rightarrow> TokenizedTable \<Rightarrow> int \<Rightarrow> int \<Rightarrow> bool
     \<Rightarrow> (error + int \<times> int) option" where
  "trimmed_fit self question_tokens tokenized_table num_columns num_rows drop_rows =
     (case get_max_num_tokens self question_tokens tokenized_table num_columns num_rows of
        Inl e \<Rightarrow> Some (Inl e)
      | Inr (Some num_tokens) \<Rightarrow> Some (Inr (num_rows, num_tokens))
      | Inr None \<Rightarrow>
          if \<not> drop_rows \<or> num_rows = 0 then Some (Inl (ValueError ''Sequence too long''))
          else trimmed_fit self question_tokens tokenized_table num_columns (num_rows - 1)
                 drop_rows)"

declare trimmed_fit.simps [code]

subsection \<open>The test of the table walk, and a running example\<close>

text \<open>
  The three tests of \<^verbatim>\<open>_get_table_values\<close> on a coordinate, and the value it yields.
  The first row of a tokenized table is the header row, and the row test keeps it.
\<close>

definition in_range :: "TokenizedTable \<Rightarrow> TokenCoordinates \<Rightarrow> bool" where
  "in_range table tc =
     (row_index tc < length (rows table) \<and>
      column_index tc < length (rows table ! row_index tc) \<and>
      token_index tc < length (rows table ! row_index tc ! column_index tc))"

definition emitted :: "TokenizedTable \<Rightarrow> int \<Rightarrow> int \<Rightarrow> int \<Rightarrow> TokenCoordinates \<Rightarrow> bool" where
  "emitted table num_columns num_rows num_tokens tc =
     (int (row_index tc) \<le> num_rows \<and> int (column_index tc) < num_columns \<and>
      word_begin_index (rows table ! row_index tc ! column_index tc) (token_index tc)
        < num_tokens)"

definition tagged :: "TokenizedTable \<Rightarrow> TokenCoordinates \<Rightarrow> TableValue" where
  "tagged table tc =
     (rows table ! row_index tc ! column_index tc ! token_index tc,
      int (column_index tc) + 1, int (row_index tc))"

text \<open>
  The example of the specification: a table with the header \<open>Name, Age\<close> and the rows
  \<open>Alice, 30\<close> and \<open>Bob, 25\<close>, with a subword tokenizer that splits \<open>Alice\<close> in two
  pieces of one word and \<open>New York\<close> in two words, and leaves every other cell whole.
  A second table has a cell of two words.
\<close>

definition example_tokenizer :: TapasTokenizer where
  "example_tokenizer =
     \<lparr>model_max_length = 16, cell_trim_length = - 1, max_column_id = 16, max_row_id = 16,
      strip_column_names = False, update_answer_coordinates = False, drop_rows_to_fit = False,
      cls_token = ''[CLS]'', sep_token = ''[SEP]'',
      tokenize = (\<lambda>text. if text = '''' then []
                          else if text = ''Alice'' then [''al'', ''##ice'']
                          else if text = ''New York'' then [''new'', ''york'']
                          else if text = ''Who is 30?'' then [''who'', ''is'', ''30'', ''?'']
                          else [text]),
      convert_token_to_id = (\<lambda>token. int (length token))\<rparr>"

definition example_table :: DataFrame where
  "example_table =
     \<lparr>columns = [''Name'', ''Age''], num_table_rows = 2,
      iloc = (\<lambda>r c. [[''Alice'', ''30''], [''Bob'', ''25'']] ! r ! c)\<rparr>"

definition example_cities :: DataFrame where
  "example_cities =
     \<lparr>columns = [''City'', ''Pop''], num_table_rows = 2,
      iloc = (\<lambda>r c. [[''New York'', ''8''], [''Rome'', ''3'']] ! r ! c)\<rparr>"

subsection \<open>Answer alignment, coordinate mode\<close>

text \<open>
  \<^verbatim>\<open>_get_cell_token_indexes\<close> yields the positions whose column id and row id, less
  one, are the given cell. Every caller passes two sequences of one length (those of a
  serialized example, or those \<^verbatim>\<open>_to_features\<close> has checked), so each read of
  \<open>rids\<close> is in range.
\<close>

definition get_cell_token_indexes :: "int list \<Rightarrow> int list \<Rightarrow> int \<Rightarrow> int \<Rightarrow> nat list" where
  "get_cell_token_indexes cids rids column_id row_id =
     filter (\<lambda>index. cids ! index - 1 = column_id \<and> rids ! index - 1 = row_id)
       [0..<length cids]"

text \<open>
  One turn of the loop over the answers: the state is the label list, the set of answers
  found and the set of all answers (sets as lists without duplicates).
\<close>

definition answer_step ::
  "int list \<Rightarrow> int list \<Rightarrow> int \<times> int
     \<Rightarrow> int list \<times> (int \<times> int) list \<times> (int \<times> int) list
     \<Rightarrow> int list \<times> (int \<times> int) list \<times> (int \<times> int) list" where
  "answer_step cids rids =
     (\<lambda>(column_index, row_index) (answer_ids, found_answers, all_answers).
        let indexes = get_cell_token_indexes cids rids column_index row_index
        in (fold (\<lambda>index ids. ids[index := 1]) indexes answer_ids,
            if indexes = [] then found_answers
            else List.insert (column_index, row_index) found_answers,
            List.insert (column_index, row_index) all_answers))"

definition get_all_answer_ids_from_coordinates ::
  "int list \<Rightarrow> int list \<Rightarrow> (int \<times> int) list \<Rightarrow> int list \<times> int" where
  "get_all_answer_ids_from_coordinates cids rids answers_list =
     (case fold (answer_step cids rids) answers_list (replicate (length cids) 0, [], []) of
        (answer_ids, found_answers, all_answers) \<Rightarrow>
          (answer_ids, int (length all_answers) - int (length found_answers)))"

text \<open>The answer coordinates come as (row, column) pairs and are swapped here.\<close>

definition get_all_answer_ids ::
  "int list \<Rightarrow> int list \<Rightarrow> string list \<Rightarrow> (int \<times> int) list \<Rightarrow> int list \<times> int" where
  "get_all_answer_ids cids rids question answer_coordinates =
     get_all_answer_ids_from_coordinates cids rids
       (map (\<lambda>coords. (snd coords, fst coords)) answer_coordinates)"

definition get_answer_ids ::
  "int list \<Rightarrow> int list \<Rightarrow> string \<Rightarrow> (int \<times> int) list \<Rightarrow> error + int list" where
  "get_answer_ids cids rids question answer_coordinates =
     (case get_all_answer_ids cids rids [question] answer_coordinates of
        (answer_ids, missing_count) \<Rightarrow>
          if missing_count \<noteq> 0 then Inl (ValueError ''Couldn't find all answers'')
          else Inr answer_ids)"

definition in_cell :: "int list \<Rightarrow> int list \<Rightarrow> nat \<Rightarrow> int \<times> int \<Rightarrow> bool" where
  "in_cell cids rids i a = (cids ! i - 1 = fst a \<and> rids ! i - 1 = snd a)"

subsection \<open>Numeric values and the sort-key unifier\<close>

datatype Relation =
    HEADER_TO_CELL | CELL_TO_HEADER | QUERY_TO_HEADER | QUERY_TO_CELL
  | ROW_TO_CELL | CELL_TO_ROW | EQ | LT | GT

fun relation_value :: "Relation \<Rightarrow> int" where
  "relation_value HEADER_TO_CELL = 1"
| "relation_value CELL_TO_HEADER = 2"
| "relation_value QUERY_TO_HEADER = 3"
| "relation_value QUERY_TO_CELL = 4"
| "relation_value ROW_TO_CELL = 5"
| "relation_value CELL_TO_ROW = 6"
| "relation_value EQ = 7"
| "relation_value LT = 8"
| "relation_value GT = 9"

text \<open>
  A Python float is modelled by the real number it denotes: the core only compares floats
  and tests them for equality, and the parser rejects NaN. In a list of floats that can
  hold NaN (the feature \<open>numeric_values\<close>) NaN is a value of its own.
\<close>

datatype pyfloat = NaN | Float real

record Date =
  year :: "int option"
  month :: "int option"
  day :: "int option"

record NumericValue =
  float_value :: "real option"
  date :: "Date option"

record NumericValueSpan =
  begin_index :: nat
  end_index :: nat
  span_values :: "NumericValue list"

text \<open>
  \<^verbatim>\<open>parse_text\<close> and \<^verbatim>\<open>normalize_for_match\<close> rest on the regular expressions, the
  date parsing and the string methods of the Python library; they are parameters of the
  model.
\<close>

record NumberParser =
  normalize_for_match :: "string \<Rightarrow> string"
  parse_text :: "string \<Rightarrow> NumericValueSpan list"

datatype value_type = NUMBER_TYPE | DATE_TYPE

datatype primitive_value = Float_value real | Tuple_value "real option list"

definition get_value_type :: "NumericValue \<Rightarrow> error + value_type" where
  "get_value_type numeric_value =
     (if float_value numeric_value \<noteq> None then Inr NUMBER_TYPE
      else if date numeric_value \<noteq> None then Inr DATE_TYPE
      else Inl (ValueError ''Unknown type''))"

definition date_tuple :: "Date \<Rightarrow> real option list" where
  "date_tuple d =
     [map_option real_of_int (year d), map_option real_of_int (month d),
      map_option real_of_int (day d)]"

definition get_value_as_primitive_value :: "NumericValue \<Rightarrow> error + primitive_value" where
  "get_value_as_primitive_value numeric_value =
     (case float_value numeric_value of
        Some x \<Rightarrow> Inr (Float_value x)
      | None \<Rightarrow>
          (case date numeric_value of
             Some d \<Rightarrow> Inr (Tuple_value (date_tuple d))
           | None \<Rightarrow> Inl (ValueError ''Unknown type'')))"

text \<open>The set comprehension of \<^verbatim>\<open>_get_all_types\<close>; a set is a list without duplicates.\<close>

fun get_all_types :: "NumericValue list \<Rightarrow> error + value_type list" where
  "get_all_types [] = Inr []"
| "get_all_types (v # vs) =
     (case get_value_type v of
        Inl e \<Rightarrow> Inl e
      | Inr t \<Rightarrow>
          (case get_all_types vs of
             Inl e \<Rightarrow> Inl e
           | Inr ts \<Rightarrow> Inr (List.insert t ts)))"

text \<open>
  The loop of \<^verbatim>\<open>get_numeric_sort_key_fn\<close> that discards from \<open>valid_indexes\<close> every
  index at which some value has no field. The set \<open>valid_indexes\<close> holds numbers below 3,
  which Python iterates in increasing order; it is kept as an increasing list.
\<close>

fun discard_unset :: "NumericValue list \<Rightarrow> nat list \<Rightarrow> error + nat list" where
  "discard_unset [] valid_indexes = Inr valid_indexes"
| "discard_unset (numeric_value # numeric_values) valid_indexes =
     (case get_value_as_primitive_value numeric_value of
        Inl e \<Rightarrow> Inl e
      | Inr (Float_value x) \<Rightarrow> Inl AssertionError
      | Inr (Tuple_value tuple_value) \<Rightarrow>
          discard_unset numeric_values
            (filter (\<lambda>tuple_index. \<not> (tuple_index < length tuple_value
                                      \<and> tuple_value ! tuple_index = None))
               valid_indexes))"

text \<open>
  The function that \<^verbatim>\<open>get_numeric_sort_key_fn\<close> returns is either
  \<^verbatim>\<open>_get_value_as_primitive_value\<close> or the closure \<^verbatim>\<open>_sort_key_fn\<close> over
  \<open>valid_indexes\<close>; \<open>sort_key\<close> applies it.
\<close>

datatype sort_key_fn = Primitive_key | Date_key "nat list"

fun sort_key :: "sort_key_fn \<Rightarrow> NumericValue \<Rightarrow> error + primitive_value" where
  "sort_key Primitive_key numeric_value = get_value_as_primitive_value numeric_value"
| "sort_key (Date_key valid_indexes) numeric_value =
     (case get_value_as_primitive_value numeric_value of
        Inl e \<Rightarrow> Inl e
      | Inr (Float_value x) \<Rightarrow> Inl TypeError
      | Inr (Tuple_value tuple_value) \<Rightarrow>
          Inr (Tuple_value (map (\<lambda>index. tuple_value ! index) valid_indexes)))"

definition get_numeric_sort_key_fn :: "NumericValue list \<Rightarrow> error + sort_key_fn" where
  "get_numeric_sort_key_fn numeric_values =
     (case get_all_types numeric_values of
        Inl e \<Rightarrow> Inl e
      | Inr value_types \<Rightarrow>
          if length value_types \<noteq> 1 then Inl (ValueError ''No common value type'')
          else if hd value_types = NUMBER_TYPE then Inr Primitive_key
          else (case discard_unset numeric_values [0, 1, 2] of
                  Inl e \<Rightarrow> Inl e
                | Inr valid_indexes \<Rightarrow>
                    if valid_indexes = [] then Inl (ValueError ''No common value'')
                    else Inr (Date_key valid_indexes)))"

text \<open>
  Python's \<open><\<close> on two keys: floats compare as numbers; tuples compare at the first
  position where they differ, and by length when there is none; a float against a tuple,
  or an unset field against a number, raises.
\<close>

fun tuple_less :: "real option list \<Rightarrow> real option list \<Rightarrow> error + bool" where
  "tuple_less [] [] = Inr False"
| "tuple_less [] (y # ys) = Inr True"
| "tuple_less (x # xs) [] = Inr False"
| "tuple_less (x # xs) (y # ys) =
     (if x = y then tuple_less xs ys
      else (case (x, y) of
              (Some a, Some b) \<Rightarrow> Inr (a < b)
            | _ \<Rightarrow> Inl TypeError))"

fun primitive_less :: "primitive_value \<Rightarrow> primitive_value \<Rightarrow> error + bool" where
  "primitive_less (Float_value a) (Float_value b) = Inr (a < b)"
| "primitive_less (Tuple_value a) (Tuple_value b) = tuple_less a b"
| "primitive_less (Float_value a) (Tuple_value b) = Inl TypeError"
| "primitive_less (Tuple_value a) (Float_value b) = Inl TypeError"

definition get_numeric_relation ::
  "NumericValue \<Rightarrow> NumericValue \<Rightarrow> sort_key_fn \<Rightarrow> error + Relation option" where
  "get_numeric_relation numeric_value other_value sort_key_fn =
     (case sort_key sort_key_fn numeric_value of
        Inl e \<Rightarrow> Inl e
      | Inr v \<Rightarrow>
          (case sort_key sort_key_fn other_value of
             Inl e \<Rightarrow> Inl e
           | Inr w \<Rightarrow>
               if v = w then Inr (Some EQ)
               else (case primitive_less v w of
                       Inl e \<Rightarrow> Inl e
                     | Inr True \<Rightarrow> Inr (Some LT)
                     | Inr False \<Rightarrow>
                         (case primitive_less w v of
                            Inl e \<Rightarrow> Inl e
                          | Inr True \<Rightarrow> Inr (Some GT)
                          | Inr False \<Rightarrow> Inr None))))"

definition get_numeric_values :: "NumberParser \<Rightarrow> string \<Rightarrow> NumericValue list" where
  "get_numeric_values np text = concat (map span_values (parse_text np text))"

definition parse_column_values ::
  "NumberParser \<Rightarrow> DataFrame \<Rightarrow> nat \<Rightarrow> (nat \<times> NumericValue list) list" where
  "parse_column_values np table col_index =
     map (\<lambda>(row_index, row).
            (row_index, get_numeric_values np (normalize_for_match np (row ! col_index))))
       (iterrows table)"

definition add_numeric_values_to_question ::
  "NumberParser \<Rightarrow> string \<Rightarrow> string \<times> NumericValueSpan list" where
  "add_numeric_values_to_question np question =
     (normalize_for_match np question, parse_text np (normalize_for_match np question))"

text \<open>
  The words of the specification on dates: a field (0 the year, 1 the month, 2 the day) is
  populated in a value when the value has a date with that field set, and the common
  fields of a set of values are the fields populated in all of them, in the order year,
  month, day.
\<close>

definition field_of :: "NumericValue \<Rightarrow> nat \<Rightarrow> real option" where
  "field_of v i = (case date v of None \<Rightarrow> None | Some d \<Rightarrow> date_tuple d ! i)"

definition common_fields :: "NumericValue list \<Rightarrow> nat list" where
  "common_fields vs = filter (\<lambda>i. \<forall>v \<in> set vs. field_of v i \<noteq> None) [0, 1, 2]"

definition example_number :: "real \<Rightarrow> NumericValue" where
  "example_number x = \<lparr>float_value = Some x, date = None\<rparr>"

definition example_date :: "int option \<Rightarrow> int option \<Rightarrow> int option \<Rightarrow> NumericValue" where
  "example_date y m d = \<lparr>float_value = None, date = Some \<lparr>year = y, month = m, day = d\<rparr>\<rparr>"

subsection \<open>Numeric feature builder\<close>

text \<open>
  A loop whose body can raise: the first exception ends it.
\<close>

fun for_each :: "('a \<Rightarrow> 's \<Rightarrow> error + 's) \<Rightarrow> 'a list \<Rightarrow> 's \<Rightarrow> error + 's" where
  "for_each body [] s = Inr s"
| "for_each body (x # xs) s =
     (case body x s of Inl e \<Rightarrow> Inl e | Inr s' \<Rightarrow> for_each body xs s')"

text \<open>
  The feature dictionary maps a feature name to a sequence of integers or of floats. The
  dictionary \<open>columns_to_numeric_values\<close> maps a column index to the dictionary of the
  rows of that column that have a numeric value; the inner dictionary is iterated, so it
  is a list of (row index, value) pairs in insertion order.
\<close>

datatype feature_values = Ints "int list" | Floats "pyfloat list"

type_synonym Features = "string \<rightharpoonup> feature_values"

type_synonym ColumnValues = "(nat \<times> NumericValue) list"

definition get_column_values :: "(nat \<times> NumericValue list) list \<Rightarrow> ColumnValues" where
  "get_column_values table_numeric_values =
     map (\<lambda>(row_index, numeric_values). (row_index, hd numeric_values))
       (filter (\<lambda>(row_index, numeric_values). length numeric_values \<noteq> 0)
          table_numeric_values)"

text \<open>
  \<^verbatim>\<open>sorted\<close> on the keys, as an insertion sort that raises when a comparison raises.
\<close>

fun insort_primitive :: "primitive_value \<Rightarrow> primitive_value list \<Rightarrow> error + primitive_value list" where
  "insort_primitive x [] = Inr [x]"
| "insort_primitive x (y # ys) =
     (case primitive_less x y of
        Inl e \<Rightarrow> Inl e
      | Inr True \<Rightarrow> Inr (x # y # ys)
      | Inr False \<Rightarrow>
          (case insort_primitive x ys of Inl e \<Rightarrow> Inl e | Inr zs \<Rightarrow> Inr (y # zs)))"

fun py_sorted :: "primitive_value list \<Rightarrow> error + primitive_value list" where
  "py_sorted [] = Inr []"
| "py_sorted (x # xs) =
     (case py_sorted xs of Inl e \<Rightarrow> Inl e | Inr ys \<Rightarrow> insort_primitive x ys)"

text \<open>The dictionary comprehension that applies the key function to every value.\<close>

fun sort_keys_of :: "sort_key_fn \<Rightarrow> ColumnValues \<Rightarrow> error + (nat \<times> primitive_value) list" where
  "sort_keys_of key_fn [] = Inr []"
| "sort_keys_of key_fn ((r, numeric_value) # rest) =
     (case sort_key key_fn numeric_value of
        Inl e \<Rightarrow> Inl e
      | Inr k \<Rightarrow>
          (case sort_keys_of key_fn rest of
             Inl e \<Rightarrow> Inl e
           | Inr ks \<Rightarrow> Inr ((r, k) # ks)))"

text \<open>\<^verbatim>\<open>table_numeric_values_inv[value].append(row_index)\<close> on a dictionary of lists.\<close>

fun append_row ::
  "primitive_value \<Rightarrow> nat \<Rightarrow> (primitive_value \<times> nat list) list
     \<Rightarrow> (primitive_value \<times> nat list) list" where
  "append_row k r [] = [(k, [r])]"
| "append_row k r ((k', row_indexes) # values_inv) =
     (if k' = k then (k', row_indexes @ [r]) # values_inv
      else (k', row_indexes) # append_row k r values_inv)"

definition rows_of :: "(primitive_value \<times> nat list) list \<Rightarrow> primitive_value \<Rightarrow> nat list" where
  "rows_of values_inv k = (case map_of values_inv k of None \<Rightarrow> [] | Some row_indexes \<Rightarrow> row_indexes)"

definition write_ranks ::
  "int list \<Rightarrow> int list \<Rightarrow> nat \<Rightarrow> primitive_value list \<Rightarrow> (primitive_value \<times> nat list) list
     \<Rightarrow> int list \<times> int list \<Rightarrow> int list \<times> int list" where
  "write_ranks cids rids col_index unique_values values_inv =
     fold (\<lambda>(rank, k).
        fold (\<lambda>row_index.
           fold (\<lambda>index (ranks, inv_ranks).
                   (ranks[index := int rank + 1],
                    inv_ranks[index := int (length unique_values) - int rank]))
             (get_cell_token_indexes cids rids (int col_index) (int row_index)))
          (rows_of values_inv k))
       (enumerate 0 unique_values)"

type_synonym rank_state = "int list \<times> int list \<times> (nat \<rightharpoonup> ColumnValues)"

text \<open>One turn of the loop over the columns in \<^verbatim>\<open>_add_numeric_column_ranks\<close>.\<close>

definition rank_column ::
  "NumberParser \<Rightarrow> int list \<Rightarrow> int list \<Rightarrow> DataFrame \<Rightarrow> nat \<Rightarrow> rank_state
     \<Rightarrow> error + rank_state" where
  "rank_column np cids rids table col_index =
     (\<lambda>(ranks, inv_ranks, columns_to_numeric_values).
        let table_numeric_values = get_column_values (parse_column_values np table col_index);
            columns_to_numeric_values =
              columns_to_numeric_values(col_index \<mapsto> table_numeric_values)
        in if table_numeric_values = [] then Inr (ranks, inv_ranks, columns_to_numeric_values)
           else (case get_numeric_sort_key_fn (map snd table_numeric_values) of
                   Inl (ValueError msg) \<Rightarrow> Inr (ranks, inv_ranks, columns_to_numeric_values)
                 | Inl e \<Rightarrow> Inl e
                 | Inr key_fn \<Rightarrow>
                     (case sort_keys_of key_fn table_numeric_values of
                        Inl e \<Rightarrow> Inl e
                      | Inr keyed \<Rightarrow>
                          let values_inv = fold (\<lambda>(row_index, k). append_row k row_index) keyed []
                          in (case py_sorted (map fst values_inv) of
                                Inl e \<Rightarrow> Inl e
                              | Inr unique_values \<Rightarrow>
                                  (case write_ranks cids rids col_index unique_values values_inv
                                          (ranks, inv_ranks) of
                                     (ranks, inv_ranks) \<Rightarrow>
                                       Inr (ranks, inv_ranks, columns_to_numeric_values))))))"

text \<open>
  The table argument of the feature builder is never \<^verbatim>\<open>None\<close> on the path from
  \<^verbatim>\<open>_batch_prepare_for_model\<close>, which tokenizes the table first; the model takes a
  table and a question.
\<close>

definition add_numeric_column_ranks ::
  "NumberParser \<Rightarrow> int list \<Rightarrow> int list \<Rightarrow> DataFrame \<Rightarrow> Features
     \<Rightarrow> error + Features \<times> (nat \<rightharpoonup> ColumnValues)" where
  "add_numeric_column_ranks np cids rids table features =
     (case for_each (rank_column np cids rids table) [0..<length (columns table)]
             (replicate (length cids) 0, replicate (length cids) 0, Map.empty) of
        Inl e \<Rightarrow> Inl e
      | Inr (ranks, inv_ranks, columns_to_numeric_values) \<Rightarrow>
          Inr (features(''column_ranks'' \<mapsto> Ints ranks, ''inv_column_ranks'' \<mapsto> Ints inv_ranks),
               columns_to_numeric_values))"

text \<open>The method \<^verbatim>\<open>_get_numeric_sort_key_fn\<close> of the tokenizer.\<close>

definition method_get_numeric_sort_key_fn ::
  "ColumnValues \<Rightarrow> NumericValue \<Rightarrow> error + sort_key_fn option" where
  "method_get_numeric_sort_key_fn table_numeric_values numeric_value =
     (if table_numeric_values = [] then Inr None
      else (case get_numeric_sort_key_fn (map snd table_numeric_values @ [numeric_value]) of
              Inl (ValueError msg) \<Rightarrow> Inr None
            | Inl e \<Rightarrow> Inl e
            | Inr key_fn \<Rightarrow> Inr (Some key_fn)))"

type_synonym cell_relations = "((nat \<times> nat) \<times> Relation list) list"

text \<open>\<^verbatim>\<open>cell_indices_to_relations[key].add(relation)\<close> on a dictionary of sets.\<close>

fun add_relation :: "nat \<times> nat \<Rightarrow> Relation \<Rightarrow> cell_relations \<Rightarrow> cell_relations" where
  "add_relation cell relation [] = [(cell, [relation])]"
| "add_relation cell relation ((cell', relations) # rest) =
     (if cell' = cell then (cell', List.insert relation relations) # rest
      else (cell', relations) # add_relation cell relation rest)"

definition relate_rows ::
  "NumericValue \<Rightarrow> sort_key_fn \<Rightarrow> nat \<Rightarrow> ColumnValues \<Rightarrow> cell_relations
     \<Rightarrow> error + cell_relations" where
  "relate_rows numeric_value key_fn col_index =
     for_each (\<lambda>(row_index, cell_value) cell_indices_to_relations.
        case get_numeric_relation numeric_value cell_value key_fn of
          Inl e \<Rightarrow> Inl e
        | Inr None \<Rightarrow> Inr cell_indices_to_relations
        | Inr (Some relation) \<Rightarrow>
            Inr (add_relation (col_index, row_index) relation cell_indices_to_relations))"

definition relate_column ::
  "(nat \<rightharpoonup> ColumnValues) \<Rightarrow> NumericValue \<Rightarrow> nat \<Rightarrow> cell_relations \<Rightarrow> error + cell_relations" where
  "relate_column columns_to_numeric_values numeric_value col_index
       cell_indices_to_relations =
     (case columns_to_numeric_values col_index of
        None \<Rightarrow> Inl KeyError
      | Some table_numeric_values \<Rightarrow>
          (case method_get_numeric_sort_key_fn table_numeric_values numeric_value of
             Inl e \<Rightarrow> Inl e
           | Inr None \<Rightarrow> Inr cell_indices_to_relations
           | Inr (Some key_fn) \<Rightarrow>
               relate_rows numeric_value key_fn col_index table_numeric_values
                 cell_indices_to_relations))"

definition question_relations ::
  "NumberParser \<Rightarrow> string \<Rightarrow> DataFrame \<Rightarrow> (nat \<rightharpoonup> ColumnValues) \<Rightarrow> error + cell_relations" where
  "question_relations np question table columns_to_numeric_values =
     for_each (\<lambda>numeric_value_span.
        for_each (\<lambda>numeric_value.
           for_each (relate_column columns_to_numeric_values numeric_value)
             [0..<length (columns table)])
          (span_values numeric_value_span))
       (snd (add_numeric_values_to_question np question)) []"

definition relation_set_index :: "Relation list \<Rightarrow> error + int" where
  "relation_set_index relations =
     for_each (\<lambda>relation index.
        if relation_value relation \<ge> relation_value EQ
        then Inr (index + 2 ^ nat (relation_value relation - relation_value EQ))
        else Inl AssertionError)
       relations 0"

definition write_relations ::
  "int list \<Rightarrow> int list \<Rightarrow> cell_relations \<Rightarrow> int list \<Rightarrow> error + int list" where
  "write_relations cids rids =
     for_each (\<lambda>((column_index, row_index), relations) numeric_relations.
        case relation_set_index relations of
          Inl e \<Rightarrow> Inl e
        | Inr index \<Rightarrow>
            Inr (fold (\<lambda>cell_token_index xs. xs[cell_token_index := index])
                   (get_cell_token_indexes cids rids (int column_index) (int row_index))
                   numeric_relations))"

definition add_numeric_relations ::
  "NumberParser \<Rightarrow> string \<Rightarrow> int list \<Rightarrow> int list \<Rightarrow> DataFrame \<Rightarrow> Features
     \<Rightarrow> (nat \<rightharpoonup> ColumnValues) \<Rightarrow> error + Features" where
  "add_numeric_relations np question cids rids table features columns_to_numeric_values =
     (case question_relations np question table columns_to_numeric_values of
        Inl e \<Rightarrow> Inl e
      | Inr cell_indices_to_relations \<Rightarrow>
          (case write_relations cids rids cell_indices_to_relations
                  (replicate (length cids) 0) of
             Inl e \<Rightarrow> Inl e
           | Inr numeric_relations \<Rightarrow>
               Inr (features(''numeric_relations'' \<mapsto> Ints numeric_relations))))"

text \<open>
  An assignment \<^verbatim>\<open>xs[index] = v\<close> to a list that need not be as long as the list of
  column ids.
\<close>

definition assign :: "nat \<Rightarrow> 'a \<Rightarrow> 'a list \<Rightarrow> error + 'a list" where
  "assign index v xs = (if index < length xs then Inr (xs[index := v]) else Inl IndexError)"

text \<open>
  \<^verbatim>\<open>_add_numeric_values\<close> and \<^verbatim>\<open>_add_numeric_values_scale\<close> read the column ids and
  the row ids from \<open>token_ids_dict\<close>; \<^verbatim>\<open>_to_features\<close> has read both before it calls
  them, so the model passes the two lists. A float of the parser is never the positive
  infinity, so the test for it is never true and has no branch here.
\<close>

definition numeric_values_row ::
  "int list \<Rightarrow> int list \<Rightarrow> ColumnValues \<Rightarrow> nat \<Rightarrow> nat \<Rightarrow> pyfloat list \<Rightarrow> error + pyfloat list" where
  "numeric_values_row cids rids column_values col_index r numeric_values =
     (case map_of column_values r of
        None \<Rightarrow> Inl KeyError
      | Some numeric_value \<Rightarrow>
          (case float_value numeric_value of
             None \<Rightarrow> Inr numeric_values
           | Some x \<Rightarrow>
               for_each (\<lambda>index. assign index (Float x))
                 (get_cell_token_indexes cids rids (int col_index) (int r))
                 numeric_values))"

definition add_numeric_values ::
  "TapasTokenizer \<Rightarrow> DataFrame \<Rightarrow> int list \<Rightarrow> int list \<Rightarrow> Features
     \<Rightarrow> (nat \<rightharpoonup> ColumnValues) \<Rightarrow> error + Features" where
  "add_numeric_values self table cids rids features columns_to_numeric_values =
     (case for_each (\<lambda>col_index numeric_values.
               case columns_to_numeric_values col_index of
                 None \<Rightarrow> Inl KeyError
               | Some column_values \<Rightarrow>
                   if column_values = [] then Inr numeric_values
                   else for_each (numeric_values_row cids rids column_values col_index)
                          [0..<shape0 table] numeric_values)
             [0..<shape1 table] (replicate (nat (model_max_length self)) NaN) of
        Inl e \<Rightarrow> Inl e
      | Inr numeric_values \<Rightarrow> Inr (features(''numeric_values'' \<mapsto> Floats numeric_values)))"

definition numeric_values_scale_cell ::
  "int list \<Rightarrow> int list \<Rightarrow> nat \<Rightarrow> nat \<Rightarrow> pyfloat list \<Rightarrow> error + pyfloat list" where
  "numeric_values_scale_cell cids rids col_index r numeric_values_scale =
     (let indices = get_cell_token_indexes cids rids (int col_index) (int r);
          num_indices = length indices
      in if num_indices > 1
         then for_each (\<lambda>index. assign index (Float (real num_indices))) indices
                numeric_values_scale
         else Inr numeric_values_scale)"

definition add_numeric_values_scale ::
  "TapasTokenizer \<Rightarrow> DataFrame \<Rightarrow> int list \<Rightarrow> int list \<Rightarrow> Features \<Rightarrow> error + Features" where
  "add_numeric_values_scale self table cids rids features =
     (case for_each (\<lambda>col_index.
               for_each (numeric_values_scale_cell cids rids col_index) [0..<shape0 table])
             [0..<shape1 table] (replicate (nat (model_max_length self)) (Float 1)) of
        Inl e \<Rightarrow> Inl e
      | Inr numeric_values_scale \<Rightarrow>
          Inr (features(''numeric_values_scale'' \<mapsto> Floats numeric_values_scale)))"

subsection \<open>Padding and the feature bundle\<close>

text \<open>The two \<^verbatim>\<open>while\<close> loops of \<^verbatim>\<open>_pad_to_seq_length\<close>.\<close>

function pop_while_longer :: "int \<Rightarrow> int list \<Rightarrow> error + int list" where
  "pop_while_longer n inputs =
     (if int (length inputs) > n
      then (if inputs = [] then Inl IndexError else pop_while_longer n (butlast inputs))
      else Inr inputs)"
  by pat_completeness auto
termination
  by (relation "measure (\<lambda>(n, inputs). length inputs)") auto

declare pop_while_longer.simps [simp del]

function append_while_shorter :: "int \<Rightarrow> int list \<Rightarrow> int list" where
  "append_while_shorter n inputs =
     (if int (length inputs) < n then append_while_shorter n (inputs @ [0]) else inputs)"
  by pat_completeness auto
termination
  by (relation "measure (\<lambda>(n, inputs). nat (n - int (length inputs)))") auto

declare append_while_shorter.simps [simp del]

definition pad_to_seq_length :: "TapasTokenizer \<Rightarrow> int list \<Rightarrow> error + int list" where
  "pad_to_seq_length self inputs =
     (case pop_while_longer (model_max_length self) inputs of
        Inl e \<Rightarrow> Inl e
      | Inr popped \<Rightarrow> Inr (append_while_shorter (model_max_length self) popped))"

fun pad_all :: "TapasTokenizer \<Rightarrow> (string \<times> int list) list \<Rightarrow> error + (string \<times> int list) list" where
  "pad_all self [] = Inr []"
| "pad_all self ((key, ids) # rest) =
     (case pad_to_seq_length self ids of
        Inl e \<Rightarrow> Inl e
      | Inr padded \<Rightarrow>
          (case pad_all self rest of
             Inl e \<Rightarrow> Inl e
           | Inr padded_rest \<Rightarrow> Inr ((key, padded) # padded_rest)))"

text \<open>
  \<^verbatim>\<open>_to_features\<close>. The dictionary \<open>token_ids_dict\<close> is a list of pairs with distinct
  keys. The features are a dictionary, so the order in which the padded sequences are
  stored (sorted by key in the source) does not show.
\<close>

definition to_features ::
  "NumberParser \<Rightarrow> TapasTokenizer \<Rightarrow> string list \<Rightarrow> (string \<times> int list) list \<Rightarrow> DataFrame
     \<Rightarrow> string \<Rightarrow> error + Features" where
  "to_features np self toks token_ids_dict table question =
     (if \<exists>ids \<in> set (map snd token_ids_dict). length ids \<noteq> length toks
      then Inl (ValueError ''Inconsistent length'')
      else
       (case pad_to_seq_length self (map (convert_token_to_id self) toks) of
          Inl e \<Rightarrow> Inl e
        | Inr input_ids \<Rightarrow>
       (case pad_to_seq_length self (map (\<lambda>_. 1) toks) of
          Inl e \<Rightarrow> Inl e
        | Inr attention_mask \<Rightarrow>
       (case pad_all self token_ids_dict of
          Inl e \<Rightarrow> Inl e
        | Inr padded \<Rightarrow>
       if int (length input_ids) \<noteq> model_max_length self
          \<or> int (length attention_mask) \<noteq> model_max_length self
          \<or> (\<exists>ids \<in> set (map snd padded). int (length ids) \<noteq> model_max_length self)
       then Inl AssertionError
       else
       (case map_of padded ''column_ids'' of
          None \<Rightarrow> Inl KeyError
        | Some cids \<Rightarrow>
       (case map_of padded ''row_ids'' of
          None \<Rightarrow> Inl KeyError
        | Some rids \<Rightarrow>
       (case add_numeric_column_ranks np cids rids table
               (fold (\<lambda>(key, ids) features. features(key \<mapsto> Ints ids)) padded
                  [''input_ids'' \<mapsto> Ints input_ids, ''attention_mask'' \<mapsto> Ints attention_mask]) of
          Inl e \<Rightarrow> Inl e
        | Inr (features, columns_to_numeric_values) \<Rightarrow>
       (case add_numeric_relations np question cids rids table features
               columns_to_numeric_values of
          Inl e \<Rightarrow> Inl e
        | Inr features \<Rightarrow>
       (case add_numeric_values self table cids rids features columns_to_numeric_values of
          Inl e \<Rightarrow> Inl e
        | Inr features \<Rightarrow> add_numeric_values_scale self table cids rids features)))))))))"

definition to_trimmed_features ::
  "NumberParser \<Rightarrow> TapasTokenizer \<Rightarrow> string \<Rightarrow> DataFrame \<Rightarrow> string list \<Rightarrow> TokenizedTable
     \<Rightarrow> int \<Rightarrow> int \<Rightarrow> bool \<Rightarrow> (error + SerializedExample \<times> Features) option" where
  "to_trimmed_features np self question table question_tokens tokenized_table num_columns
       num_rows drop_rows =
     (case trimmed_fit self question_tokens tokenized_table num_columns num_rows drop_rows of
        None \<Rightarrow> None
      | Some (Inl e) \<Rightarrow> Some (Inl e)
      | Some (Inr (fitted_rows, num_tokens)) \<Rightarrow>
          Some
           (case serialize self question_tokens tokenized_table num_columns fitted_rows
                   num_tokens of
              Inl e \<Rightarrow> Inl e
            | Inr serialized_example \<Rightarrow>
                if int (length (tokens serialized_example)) > model_max_length self
                then Inl AssertionError
                else (case to_features np self (tokens serialized_example)
                             [(''column_ids'', column_ids serialized_example),
                              (''row_ids'', row_ids serialized_example),
                              (''segment_ids'', segment_ids serialized_example)]
                             table question of
                        Inl e \<Rightarrow> Inl e
                      | Inr features \<Rightarrow> Inr (serialized_example, features))))"

definition get_num_columns :: "TapasTokenizer \<Rightarrow> DataFrame \<Rightarrow> error + int" where
  "get_num_columns self table =
     (if int (shape1 table) \<ge> max_column_id self then Inl (ValueError ''Too many columns'')
      else Inr (int (shape1 table)))"

definition get_num_rows :: "TapasTokenizer \<Rightarrow> DataFrame \<Rightarrow> bool \<Rightarrow> error + int" where
  "get_num_rows self table drop_rows =
     (if int (shape0 table) \<ge> max_row_id self
      then (if drop_rows then Inr (max_row_id self - 1) else Inl (ValueError ''Too many rows''))
      else Inr (int (shape0 table)))"

subsection \<open>Answer alignment, text-match mode\<close>

text \<open>
  \<^verbatim>\<open>_find_tokens\<close> and \<^verbatim>\<open>_find_answer_coordinates_from_answer_text\<close>
  both begin with a call \<^verbatim>\<open>logging.info(...)\<close>. The name \<^verbatim>\<open>logging\<close> is bound by
  \<^verbatim>\<open>from .utils import logging\<close> to the logging module of the library, which has
  \<^verbatim>\<open>get_logger\<close> and the verbosity functions but no function \<^verbatim>\<open>info\<close>: the
  call raises \<^verbatim>\<open>AttributeError\<close>.
\<close>

definition logging_info :: "error + unit" where
  "logging_info = Inl AttributeError"

text \<open>
  After that call \<^verbatim>\<open>_find_tokens\<close> compares \<^verbatim>\<open>text[index + seg_index].piece\<close>
  with \<^verbatim>\<open>seg_token.piece\<close>. Both are tokens of the subword tokenizer, Python strings,
  and a string has no attribute \<^verbatim>\<open>piece\<close>: the first comparison raises. No comparison
  is made when the segment is longer than the text (the range is empty) or when the segment
  is empty (the inner loop is empty and index 0 is returned).
\<close>

definition find_tokens :: "string list \<Rightarrow> string list \<Rightarrow> error + nat option" where
  "find_tokens cell segment =
     (case logging_info of
        Inl e \<Rightarrow> Inl e
      | Inr u \<Rightarrow>
          (if 1 + int (length cell) - int (length segment) \<le> 0 then Inr None
           else if segment = [] then Inr (Some 0)
           else Inl AttributeError))"

text \<open>The cells below the header row, in row-major order, with their indices.\<close>

definition table_cells :: "TokenizedTable \<Rightarrow> (nat \<times> nat \<times> string list) list" where
  "table_cells tokenized_table =
     concat (map (\<lambda>(r, row). map (\<lambda>(c, cell). (r, c, cell)) (enumerate 0 row))
               (filter (\<lambda>(r, row). r \<noteq> 0) (enumerate 0 (rows tokenized_table))))"

text \<open>
  The loop of \<^verbatim>\<open>_find_answer_ids_from_answer_texts\<close> over the occurrences of one
  answer text, once the generator \<^verbatim>\<open>_find_answer_coordinates_from_answer_text\<close> has
  started; the generator is consumed lazily, so a \<^verbatim>\<open>break\<close> leaves the later cells
  unsearched.
\<close>

fun mark_first_occurrence ::
  "int list \<Rightarrow> int list \<Rightarrow> string list \<Rightarrow> (nat \<times> nat \<times> string list) list \<Rightarrow> int list
     \<Rightarrow> error + int list" where
  "mark_first_occurrence cids rids answer_text [] answer_ids = Inr answer_ids"
| "mark_first_occurrence cids rids answer_text ((r, c, cell) # rest) answer_ids =
     (case find_tokens cell answer_text of
        Inl e \<Rightarrow> Inl e
      | Inr None \<Rightarrow> mark_first_occurrence cids rids answer_text rest answer_ids
      | Inr (Some k) \<Rightarrow>
          (let indexes = sort (get_cell_token_indexes cids rids (int c) (int r - 1));
               coordinate_answer_ids =
                 (if indexes \<noteq> []
                  then filter (\<lambda>index. index \<ge> k + hd indexes
                                       \<and> index < k + hd indexes + length answer_text) indexes
                  else [])
           in if length coordinate_answer_ids = length answer_text
              then Inr (fold (\<lambda>index ids. ids[index := 1]) coordinate_answer_ids answer_ids)
              else mark_first_occurrence cids rids answer_text rest answer_ids))"

text \<open>
  One turn of the loop over the answer texts. The first \<^verbatim>\<open>next\<close> on the generator runs
  its body up to the first \<^verbatim>\<open>yield\<close>, so the call of \<^verbatim>\<open>logging.info\<close> at its
  start is made, and raises, before any cell is searched, also when the table has no cell.
\<close>

definition find_answer_ids_in_cells ::
  "int list \<Rightarrow> int list \<Rightarrow> string list \<Rightarrow> (nat \<times> nat \<times> string list) list \<Rightarrow> int list
     \<Rightarrow> error + int list" where
  "find_answer_ids_in_cells cids rids answer_text cells answer_ids =
     (case logging_info of
        Inl e \<Rightarrow> Inl e
      | Inr u \<Rightarrow> mark_first_occurrence cids rids answer_text cells answer_ids)"

definition find_answer_ids_from_answer_texts ::
  "int list \<Rightarrow> int list \<Rightarrow> TokenizedTable \<Rightarrow> string list list \<Rightarrow> error + int list" where
  "find_answer_ids_from_answer_texts cids rids tokenized_table answer_texts =
     for_each (\<lambda>answer_text.
                 find_answer_ids_in_cells cids rids answer_text (table_cells tokenized_table))
       answer_texts (replicate (length cids) 0)"

text \<open>The public \<^verbatim>\<open>get_answer_ids\<close>, which chooses the mode.\<close>

definition public_get_answer_ids ::
  "TapasTokenizer \<Rightarrow> int list \<Rightarrow> int list \<Rightarrow> TokenizedTable \<Rightarrow> string \<Rightarrow> string list
     \<Rightarrow> (int \<times> int) list \<Rightarrow> error + int list" where
  "public_get_answer_ids self cids rids tokenized_table question answer_texts_question
       answer_coordinates_question =
     (if update_answer_coordinates self
      then find_answer_ids_from_answer_texts cids rids tokenized_table
             (map (tokenize self) answer_texts_question)
      else get_answer_ids cids rids question answer_coordinates_question)"

subsection \<open>The loop over the queries of a batch\<close>

definition zeros_like_input_ids :: "Features \<Rightarrow> error + int list" where
  "zeros_like_input_ids features =
     (case features ''input_ids'' of
        Some (Ints input_ids) \<Rightarrow> Inr (replicate (length input_ids) 0)
      | Some (Floats xs) \<Rightarrow> Inr (replicate (length xs) 0)
      | None \<Rightarrow> Inl KeyError)"

text \<open>
  The part of the loop body after \<^verbatim>\<open>_to_trimmed_features\<close>: the label ids of the
  query, when answers are given, and the label ids of the query before it.
\<close>

definition label_features ::
  "TapasTokenizer \<Rightarrow> SerializedExample \<Rightarrow> TokenizedTable \<Rightarrow> string
     \<Rightarrow> (string list \<times> (int \<times> int) list) option \<Rightarrow> nat \<Rightarrow> (nat \<rightharpoonup> int list) \<Rightarrow> Features
     \<Rightarrow> error + Features \<times> (nat \<rightharpoonup> int list)" where
  "label_features self serialized_example tokenized_table query answers position
       position_to_label_ids features =
     (case answers of
        Some (answer_texts_question, answer_coordinates_question) \<Rightarrow>
          (case public_get_answer_ids self (column_ids serialized_example)
                  (row_ids serialized_example) tokenized_table query answer_texts_question
                  answer_coordinates_question of
             Inl e \<Rightarrow> Inl e
           | Inr answer_ids \<Rightarrow>
          (case pad_to_seq_length self answer_ids of
             Inl e \<Rightarrow> Inl e
           | Inr label_ids \<Rightarrow>
          (case (if position = 0 then zeros_like_input_ids features
                 else (case (position_to_label_ids(position \<mapsto> label_ids)) (position - 1) of
                         None \<Rightarrow> Inl KeyError
                       | Some ids \<Rightarrow> Inr ids)) of
             Inl e \<Rightarrow> Inl e
           | Inr prev \<Rightarrow>
          (case pad_to_seq_length self prev of
             Inl e \<Rightarrow> Inl e
           | Inr prev_label_ids \<Rightarrow>
               Inr (features(''label_ids'' \<mapsto> Ints label_ids,
                             ''prev_label_ids'' \<mapsto> Ints prev_label_ids),
                    position_to_label_ids(position \<mapsto> label_ids))))))
      | None \<Rightarrow>
          (case zeros_like_input_ids features of
             Inl e \<Rightarrow> Inl e
           | Inr prev \<Rightarrow>
          (case pad_to_seq_length self prev of
             Inl e \<Rightarrow> Inl e
           | Inr prev_label_ids \<Rightarrow>
               Inr (features(''prev_label_ids'' \<mapsto> Ints prev_label_ids),
                    position_to_label_ids))))"

text \<open>
  The loop over \<^verbatim>\<open>enumerate(queries)\<close> in \<^verbatim>\<open>_batch_prepare_for_model\<close>; \<open>answers\<close>
  holds, per query, the answer texts and the answer coordinates when both are given.
\<close>

fun encode_queries ::
  "NumberParser \<Rightarrow> TapasTokenizer \<Rightarrow> DataFrame \<Rightarrow> TokenizedTable \<Rightarrow> int \<Rightarrow> int
     \<Rightarrow> (string list \<times> (int \<times> int) list) list option \<Rightarrow> (nat \<times> string) list
     \<Rightarrow> Features list \<times> (nat \<rightharpoonup> int list)
     \<Rightarrow> (error + Features list \<times> (nat \<rightharpoonup> int list)) option" where
  "encode_queries np self table tokenized_table num_columns num_rows answers [] state =
     Some (Inr state)"
| "encode_queries np self table tokenized_table num_columns num_rows answers
       ((position, query) # rest) (features_examples, position_to_label_ids) =
     (case to_trimmed_features np self query table (tokenize self query) tokenized_table
             num_columns num_rows (drop_rows_to_fit self) of
        None \<Rightarrow> None
      | Some (Inl e) \<Rightarrow> Some (Inl e)
      | Some (Inr (serialized_example, features)) \<Rightarrow>
          (case (case answers of
                   None \<Rightarrow> Inr None
                 | Some per_query \<Rightarrow>
                     if position < length per_query then Inr (Some (per_query ! position))
                     else Inl IndexError) of
             Inl e \<Rightarrow> Some (Inl e)
           | Inr answer \<Rightarrow>
               (case label_features self serialized_example tokenized_table query answer
                       position position_to_label_ids features of
                  Inl e \<Rightarrow> Some (Inl e)
                | Inr (features, position_to_label_ids) \<Rightarrow>
                    encode_queries np self table tokenized_table num_columns num_rows answers
                      rest (features_examples @ [features], position_to_label_ids))))"

definition truthy :: "'a list option \<Rightarrow> bool" where
  "truthy xs = (xs \<noteq> None \<and> xs \<noteq> Some [])"

text \<open>
  \<^verbatim>\<open>_batch_prepare_for_model\<close> up to the feature bundles of the queries, from which it
  then builds the batch encoding.
\<close>

definition batch_prepare_for_model ::
  "NumberParser \<Rightarrow> TapasTokenizer \<Rightarrow> DataFrame \<Rightarrow> string list \<Rightarrow> (int \<times> int) list list option
     \<Rightarrow> string list list option \<Rightarrow> (error + Features list) option" where
  "batch_prepare_for_model np self table queries answer_coordinates answer_texts =
     (if (truthy answer_coordinates \<and> \<not> truthy answer_texts)
         \<or> (\<not> truthy answer_coordinates \<and> truthy answer_texts)
      then Some (Inl (ValueError
        ''In case you provide answers, both answer_coordinates and answer_text should be provided''))
      else
       (case (case (answer_coordinates, answer_texts) of
                (Some coordinates, Some texts) \<Rightarrow>
                  if length coordinates = length texts \<and> length texts = length queries
                  then Inr (Some (zip texts coordinates)) else Inl AssertionError
              | _ \<Rightarrow> Inr None) of
          Inl e \<Rightarrow> Some (Inl e)
        | Inr answers \<Rightarrow>
       (case get_num_rows self table (drop_rows_to_fit self) of
          Inl e \<Rightarrow> Some (Inl e)
        | Inr num_rows \<Rightarrow>
       (case get_num_columns self table of
          Inl e \<Rightarrow> Some (Inl e)
        | Inr num_columns \<Rightarrow>
       (case encode_queries np self table (tokenize_table self table) num_columns num_rows
               answers (enumerate 0 queries) ([], Map.empty) of
          None \<Rightarrow> None
        | Some (Inl e) \<Rightarrow> Some (Inl e)
        | Some (Inr (features_examples, position_to_label_ids)) \<Rightarrow>
            Some (Inr features_examples))))))"

definition example_parser :: NumberParser where
  "example_parser =
     \<lparr>normalize_for_match = (\<lambda>text. text),
      parse_text = (\<lambda>text.
        if text = ''30'' then [\<lparr>begin_index = 0, end_index = 2, span_values = [example_number 30]\<rparr>]
        else if text = ''25'' then [\<lparr>begin_index = 0, end_index = 2, span_values = [example_number 25]\<rparr>]
        else if text = ''Who is 30?''
          then [\<lparr>begin_index = 7, end_index = 9, span_values = [example_number 30]\<rparr>]
        else [])\<rparr>"

subsection \<open>Positions of data cells\<close>

text \<open>
  A token position belongs to a data cell when its column id and its row id are both at
  least 1. The second list differs from the first only at such positions.
\<close>

definition cell_position :: "int list \<Rightarrow> int list \<Rightarrow> nat \<Rightarrow> bool" where
  "cell_position cids rids i = (i < length cids \<and> 1 \<le> cids ! i \<and> 1 \<le> rids ! i)"

definition changed_in_cells :: "int list \<Rightarrow> int list \<Rightarrow> 'a list \<Rightarrow> 'a list \<Rightarrow> bool" where
  "changed_in_cells cids rids xs ys =
     (length ys = length xs \<and>
      (\<forall>i < length xs. ys ! i \<noteq> xs ! i \<longrightarrow> cell_position cids rids i))"



subsection \<open>The feature bundle of one query\<close>

definition feature_length :: "feature_values \<Rightarrow> nat" where
  "feature_length v = (case v of Ints xs \<Rightarrow> length xs | Floats xs \<Rightarrow> length xs)"

text \<open>
  The names of the features of a bundle; \<open>label_ids\<close> is among them when answers are
  given.
\<close>

definition feature_names :: "bool \<Rightarrow> string set" where
  "feature_names supervised =
     {''input_ids'', ''attention_mask'', ''segment_ids'', ''column_ids'', ''row_ids'',
      ''prev_label_ids'', ''column_ranks'', ''inv_column_ranks'', ''numeric_relations'',
      ''numeric_values'', ''numeric_values_scale''}
     \<union> (if supervised then {''label_ids''} else {})"

text \<open>
  The pad value of a feature: 0 for the sequences of integers, NaN for
  \<open>numeric_values\<close> and 1.0 for \<open>numeric_values_scale\<close>.
\<close>

definition padded_at :: "feature_values \<Rightarrow> string \<Rightarrow> nat \<Rightarrow> bool" where
  "padded_at v name i =
     (case v of
        Ints xs \<Rightarrow> xs ! i = 0
      | Floats xs \<Rightarrow> xs ! i = (if name = ''numeric_values'' then NaN else Float 1))"

text \<open>
  A bundle of a query whose serialized example has \<open>n\<close> tokens: every sequence has the
  model length, the attention mask is 1 on the tokens and 0 after them, and every
  sequence built from this example holds its pad value after the tokens. The sequence
  \<open>prev_label_ids\<close> is built from the example of the query before.
\<close>

definition bundle_of :: "TapasTokenizer \<Rightarrow> nat \<Rightarrow> Features \<Rightarrow> bool" where
  "bundle_of self n f =
     (0 \<le> model_max_length self \<and> n \<le> nat (model_max_length self) \<and>
      (\<forall>name v. f name = Some v \<longrightarrow> feature_length v = nat (model_max_length self)) \<and>
      f ''attention_mask'' =
        Some (Ints (replicate n 1 @ replicate (nat (model_max_length self) - n) 0)) \<and>
      (\<forall>name v i. f name = Some v \<and> name \<noteq> ''prev_label_ids'' \<and> n \<le> i
                   \<and> i < nat (model_max_length self) \<longrightarrow> padded_at v name i))"

text \<open>
  The bundles of a batch: each is a bundle of its query, carries exactly the feature names,
  and its \<open>prev_label_ids\<close> are zeros for the first query and without answers, and
  the \<open>label_ids\<close> of the query before otherwise.
\<close>

definition batch_ok :: "TapasTokenizer \<Rightarrow> bool \<Rightarrow> Features list \<Rightarrow> bool" where
  "batch_ok self supervised fs =
     (\<forall>j < length fs.
        (\<exists>n. bundle_of self n (fs ! j)) \<and>
        dom (fs ! j) = feature_names supervised \<and>
        (\<exists>prev. (fs ! j) ''prev_label_ids'' = Some (Ints prev) \<and>
           (if j = 0 \<or> \<not> supervised
            then prev = replicate (nat (model_max_length self)) 0
            else (fs ! (j - 1)) ''label_ids'' = Some (Ints prev))))"

subsection \<open>The cost of a tokenized table\<close>

text \<open>
  The number of tokens of the table that pass the caps; for a tokenized table this is what
  \<^verbatim>\<open>_get_table_cost\<close> returns.
\<close>

definition cost_of :: "TokenizedTable \<Rightarrow> int \<Rightarrow> int \<Rightarrow> int \<Rightarrow> int" where
  "cost_of table num_columns num_rows num_tokens =
     int (length (filter (emitted table num_columns num_rows num_tokens)
                    (selected_tokens table)))"

subsection \<open>The relations of a cell and their code\<close>







subsection \<open>Decoding token probabilities into cell coordinates\<close>

text \<open>
  \<^verbatim>\<open>convert_logits_to_predictions\<close> first turns the logits into probabilities, in
  floating point, and multiplies them by the attention mask; the model starts from these
  probabilities, as reals. A batch element is one row of each of the four tensors
  (probabilities, segment ids, row ids, column ids), which have one sequence length. The
  aggregation and classification logits are optional and absent here, so the output is the
  list of answer coordinates.

  \<^verbatim>\<open>_get_cell_token_probs\<close> yields the positions of the tokens of data cells, with
  their probabilities.
\<close>

definition get_cell_token_probs ::
  "real list \<Rightarrow> int list \<Rightarrow> int list \<Rightarrow> int list \<Rightarrow> (nat \<times> real) list" where
  "get_cell_token_probs probabilities segs rids cids =
     filter (\<lambda>(i, p). cids ! i - 1 \<ge> 0 \<and> rids ! i - 1 \<ge> 0 \<and> segs ! i = 1)
       (enumerate 0 probabilities)"

text \<open>\<^verbatim>\<open>coords_to_probs[(col, row)].append(prob)\<close> on a dictionary of lists.\<close>

fun append_prob ::
  "int \<times> int \<Rightarrow> real \<Rightarrow> ((int \<times> int) \<times> real list) list \<Rightarrow> ((int \<times> int) \<times> real list) list" where
  "append_prob coords prob [] = [(coords, [prob])]"
| "append_prob coords prob ((coords', cell_probs) # rest) =
     (if coords' = coords then (coords', cell_probs @ [prob]) # rest
      else (coords', cell_probs) # append_prob coords prob rest)"

definition get_mean_cell_probs ::
  "real list \<Rightarrow> int list \<Rightarrow> int list \<Rightarrow> int list \<Rightarrow> ((int \<times> int) \<times> real) list" where
  "get_mean_cell_probs probabilities segs rids cids =
     map (\<lambda>(coords, cell_probs). (coords, sum_list cell_probs / real (length cell_probs)))
       (fold (\<lambda>(i, prob). append_prob (cids ! i - 1, rids ! i - 1) prob)
          (get_cell_token_probs probabilities segs rids cids) [])"

text \<open>The method \<^verbatim>\<open>max\<close> of a tensor of one dimension; it raises on an empty tensor.\<close>

definition tensor_max :: "int list \<Rightarrow> error + int" where
  "tensor_max xs = (if xs = [] then Inl RuntimeError else Inr (fold max (tl xs) (hd xs)))"

text \<open>
  The two loops over \<^verbatim>\<open>range(max_width)\<close> and \<^verbatim>\<open>range(max_height)\<close>. A coordinate is
  appended as the text of the pair \<^verbatim>\<open>(row, col)\<close> and parsed back by
  \<^verbatim>\<open>ast.literal_eval\<close>, which gives the pair again.
\<close>

definition select_answer_coordinates ::
  "real \<Rightarrow> ((int \<times> int) \<times> real) list \<Rightarrow> int \<Rightarrow> int \<Rightarrow> (int \<times> int) list" where
  "select_answer_coordinates cell_classification_threshold cell_coords_to_prob
       max_width max_height =
     concat (map (\<lambda>col.
        concat (map (\<lambda>row.
           case map_of cell_coords_to_prob (col, row) of
             None \<Rightarrow> []
           | Some cell_prob \<Rightarrow>
               if cell_prob > cell_classification_threshold then [(row, col)] else [])
          (map int [0..<nat max_height])))
       (map int [0..<nat max_width]))"

type_synonym batch_example = "real list \<times> int list \<times> int list \<times> int list"

text \<open>One turn of the loop over the batch; \<^verbatim>\<open>continue\<close> leaves the output as it is.\<close>

definition convert_example ::
  "real \<Rightarrow> batch_example \<Rightarrow> (int \<times> int) list list \<Rightarrow> error + (int \<times> int) list list" where
  "convert_example cell_classification_threshold =
     (\<lambda>(probabilities_example, segment_ids_example, row_ids_example, column_ids_example)
        answer_coordinates_batch.
        case tensor_max column_ids_example of
          Inl e \<Rightarrow> Inl e
        | Inr max_width \<Rightarrow>
            (case tensor_max row_ids_example of
               Inl e \<Rightarrow> Inl e
             | Inr max_height \<Rightarrow>
                 if max_width = 0 \<and> max_height = 0 then Inr answer_coordinates_batch
                 else Inr (answer_coordinates_batch @
                        [sort (select_answer_coordinates cell_classification_threshold
                                 (get_mean_cell_probs probabilities_example
                                    segment_ids_example row_ids_example column_ids_example)
                                 max_width max_height)])))"

definition convert_logits_to_predictions ::
  "real \<Rightarrow> batch_example list \<Rightarrow> error + (int \<times> int) list list" where
  "convert_logits_to_predictions cell_classification_threshold batch =
     for_each (convert_example cell_classification_threshold) batch []"

text \<open>
  Two batch elements of sequence length 4: one whose tokens are all question tokens, and
  one with a table of one column and one data row, where the token of the cell has
  probability 1.
\<close>

definition example_without_table :: batch_example where
  "example_without_table = ([0, 0, 0, 0], [0, 0, 0, 0], [0, 0, 0, 0], [0, 0, 0, 0])"

definition example_with_cell :: batch_example where
  "example_with_cell = ([0, 0, 0, 1], [0, 0, 1, 1], [0, 0, 0, 1], [0, 0, 1, 1])"

section \<open>Properties\<close>

subsection \<open>The table walk on a tokenized table\<close>

lemma token_coordinates_in_range:
  assumes "tc \<in> set (token_coordinates rs)"
  shows "row_index tc < length rs \<and> column_index tc < length (rs ! row_index tc)
       \<and> token_index tc < length (rs ! row_index tc ! column_index tc)"
  using assms unfolding token_coordinates_def
  by (auto simp: in_set_enumerate_eq)

lemma tokenize_table_in_range:
  "tc \<in> set (selected_tokens (tokenize_table self table))
   \<Longrightarrow> in_range (tokenize_table self table) tc"
  unfolding in_range_def
  using token_coordinates_in_range[of tc "rows (tokenize_table self table)"]
  by (simp add: tokenize_table_def Let_def)

lemma table_value_in_range:
  "in_range table tc \<Longrightarrow>
   table_value table nc nr nt tc =
     Inr (if emitted table nc nr nt tc then Some (tagged table tc) else None)"
  by (auto simp: table_value_def emitted_def in_range_def tagged_def Let_def)

lemma table_values_of_in_range:
  "\<forall>tc \<in> set tcs. in_range table tc \<Longrightarrow>
   table_values_of table nc nr nt tcs =
     Inr (map (tagged table) (filter (emitted table nc nr nt) tcs))"
  by (induction tcs) (simp_all add: table_value_in_range)

lemma get_table_values_tokenize_table:
  "get_table_values (tokenize_table self table) nc nr nt =
     Inr (map (tagged (tokenize_table self table))
            (filter (emitted (tokenize_table self table) nc nr nt)
               (selected_tokens (tokenize_table self table))))"
  unfolding get_table_values_def
  by (rule table_values_of_in_range) (simp add: tokenize_table_in_range)

subsection \<open>C1: what the serializer emits\<close>

text \<open>
  C1 as the specification has it: after the CLS token, the question tokens and the SEP
  token, all tagged \<open>(0, 0, 0)\<close>, come the table tokens, and the header row is left
  out. The code keeps the header row: the row test of the table walk drops a coordinate
  only when \<open>row_index \<ge> num_rows + 1\<close>, so row 0 always passes, and its tokens are
  emitted with segment 1, their column id and row id 0. On the example table the header
  tokens \<open>Name\<close> and \<open>Age\<close> stand at positions 3 and 4 of the output.
\<close>

theorem serialize_header_counterexample:
  "serialize example_tokenizer [''who'']
     (tokenize_table example_tokenizer example_table) 2 2 2 =
   Inr \<lparr>tokens = [''[CLS]'', ''who'', ''[SEP]'', ''Name'', ''Age'', ''al'', ''##ice'',
                  ''30'', ''Bob'', ''25''],
        column_ids = [0, 0, 0, 1, 2, 1, 1, 2, 1, 2],
        row_ids = [0, 0, 0, 0, 0, 1, 1, 1, 2, 2],
        segment_ids = [0, 0, 0, 1, 1, 1, 1, 1, 1, 1]\<rparr>"
  by code_simp

text \<open>
  C1, amended: the serializer emits the CLS token, the question tokens and the SEP token,
  each tagged segment 0, column 0, row 0, and then, in the order of the coordinate list,
  every token of the tokenized table that passes the caps (its row index at most
  \<open>num_rows\<close>, the header row 0 included; its column index below \<open>num_columns\<close>; the
  first piece of its word below \<open>num_tokens\<close>), tagged with segment 1, its column index
  plus one, and its row index: 0 for a header token, the 1-based row id for a data row.
\<close>

theorem serialize_emits:
  "serialize self q (tokenize_table self table) nc nr nt =
     (let t = tokenize_table self table;
          sel = filter (emitted t nc nr nt) (selected_tokens t)
      in Inr \<lparr>tokens = cls_token self # q @ sep_token self #
                 map (\<lambda>tc. rows t ! row_index tc ! column_index tc ! token_index tc) sel,
              column_ids = 0 # map (\<lambda>_. 0) q @ 0 # map (\<lambda>tc. int (column_index tc) + 1) sel,
              row_ids = 0 # map (\<lambda>_. 0) q @ 0 # map (\<lambda>tc. int (row_index tc)) sel,
              segment_ids = 0 # map (\<lambda>_. 0) q @ 0 # map (\<lambda>_. 1) sel\<rparr>)"
  by (simp add: serialize_def serialize_text_def get_table_values_tokenize_table
        Let_def tagged_def comp_def)

subsection \<open>C9: answer alignment from coordinates\<close>

lemma set_get_cell_token_indexes:
  "set (get_cell_token_indexes cids rids c r) =
     {i. i < length cids \<and> in_cell cids rids i (c, r)}"
  by (auto simp: get_cell_token_indexes_def in_cell_def)

lemma fold_update_one:
  "fold (\<lambda>index ids. ids[index := v]) idxs (xs :: 'a list) =
     map (\<lambda>i. if i \<in> set idxs then v else xs ! i) [0..<length xs]"
proof (induction idxs arbitrary: xs)
  case Nil
  show ?case by (simp add: map_nth)
next
  case (Cons a idxs)
  show ?case
    by (auto simp: Cons.IH nth_list_update)
qed

lemma answer_fold:
  assumes "length ids0 = length cids" "distinct found0" "distinct all0"
  shows "fold (answer_step cids rids) as (ids0, found0, all0) = (ids, found, all) \<Longrightarrow>
     ids = map (\<lambda>i. if \<exists>a \<in> set as. in_cell cids rids i a then 1 else ids0 ! i)
             [0..<length cids]
     \<and> set found = set found0 \<union>
          {a \<in> set as. get_cell_token_indexes cids rids (fst a) (snd a) \<noteq> []}
     \<and> set all = set all0 \<union> set as \<and> distinct found \<and> distinct all"
  using assms
proof (induction as arbitrary: ids0 found0 all0)
  case Nil
  then show ?case by (auto simp: map_nth intro: nth_equalityI)
next
  case (Cons a as)
  obtain c r where a: "a = (c, r)" by (cases a)
  let ?idxs = "get_cell_token_indexes cids rids c r"
  let ?ids1 = "fold (\<lambda>index ids. ids[index := 1]) ?idxs ids0"
  let ?found1 = "if ?idxs = [] then found0 else List.insert (c, r) found0"
  let ?all1 = "List.insert (c, r) all0"
  have step: "answer_step cids rids a (ids0, found0, all0) = (?ids1, ?found1, ?all1)"
    by (simp add: answer_step_def a Let_def)
  have len1: "length ?ids1 = length cids"
    using Cons.prems(2) by (simp add: fold_update_one)
  have rest: "fold (answer_step cids rids) as (?ids1, ?found1, ?all1) = (ids, found, all)"
    using Cons.prems(1) step by simp
  have d1: "distinct ?found1" "distinct ?all1"
    using Cons.prems(3,4) by auto
  note IH = Cons.IH[OF rest len1 d1]
  have ids1_nth:
    "\<And>i. i < length cids \<Longrightarrow> ?ids1 ! i = (if in_cell cids rids i a then 1 else ids0 ! i)"
    using Cons.prems(2) by (simp add: fold_update_one set_get_cell_token_indexes a)
  have "ids = map (\<lambda>i. if \<exists>a \<in> set (a # as). in_cell cids rids i a then 1 else ids0 ! i)
                [0..<length cids]"
    using IH ids1_nth by (auto intro!: nth_equalityI)
  moreover have "set found = set found0 \<union>
      {b \<in> set (a # as). get_cell_token_indexes cids rids (fst b) (snd b) \<noteq> []}"
    using IH by (auto simp: a)
  moreover have "set all = set all0 \<union> set (a # as)"
    using IH by (auto simp: a)
  ultimately show ?case using IH by blast
qed

lemma get_all_answer_ids_from_coordinates_eq:
  "get_all_answer_ids_from_coordinates cids rids as = (ids, missing) \<Longrightarrow>
     ids = map (\<lambda>i. if \<exists>a \<in> set as. in_cell cids rids i a then 1 else 0) [0..<length cids]
     \<and> (missing = 0 \<longleftrightarrow>
          (\<forall>a \<in> set as. get_cell_token_indexes cids rids (fst a) (snd a) \<noteq> []))"
proof -
  assume eq: "get_all_answer_ids_from_coordinates cids rids as = (ids, missing)"
  obtain ids' found all where f:
    "fold (answer_step cids rids) as (replicate (length cids) 0, [], []) = (ids', found, all)"
    by (metis prod_cases3)
  from eq f have ids: "ids = ids'"
    and missing: "missing = int (length all) - int (length found)"
    by (simp_all add: get_all_answer_ids_from_coordinates_def)
  from answer_fold[OF _ _ _ f] have
    r1: "ids' = map (\<lambda>i. if \<exists>a \<in> set as. in_cell cids rids i a then 1
                          else replicate (length cids) 0 ! i) [0..<length cids]"
    and r2: "set found =
               {a \<in> set as. get_cell_token_indexes cids rids (fst a) (snd a) \<noteq> []}"
    and r3: "set all = set as" and d: "distinct found" "distinct all"
    by simp_all
  have sub: "set found \<subseteq> set all" using r2 r3 by auto
  have "length all = length found \<longleftrightarrow> set found = set all"
  proof
    assume "length all = length found"
    then have "card (set found) = card (set all)"
      using d by (simp add: distinct_card)
    then show "set found = set all"
      using sub by (simp add: card_subset_eq)
  next
    assume "set found = set all"
    then show "length all = length found"
      using d by (metis distinct_card)
  qed
  then have "missing = 0 \<longleftrightarrow> set found = set all"
    using missing by auto
  also have "\<dots> \<longleftrightarrow>
      (\<forall>a \<in> set as. get_cell_token_indexes cids rids (fst a) (snd a) \<noteq> [])"
    using r2 r3 by auto
  finally have m: "missing = 0 \<longleftrightarrow>
      (\<forall>a \<in> set as. get_cell_token_indexes cids rids (fst a) (snd a) \<noteq> [])" .
  have "ids = map (\<lambda>i. if \<exists>a \<in> set as. in_cell cids rids i a then 1 else 0)
                [0..<length cids]"
    unfolding ids r1 by (rule map_cong) auto
  with m show ?thesis by simp
qed

text \<open>
  C9: in coordinate mode the answer coordinates are (row, column) pairs of cells. The call
  fails when some requested cell has no token in the serialized example; otherwise it
  returns the label list that is 1 at every position whose tags name a requested cell, and
  0 at every other position.
\<close>

theorem get_answer_ids_marks_cells:
  assumes "length rids = length cids"
  shows "get_answer_ids cids rids question coords =
     (if \<exists>a \<in> set coords. get_cell_token_indexes cids rids (snd a) (fst a) = []
      then Inl (ValueError ''Couldn't find all answers'')
      else Inr (map (\<lambda>i. if \<exists>a \<in> set coords. cids ! i - 1 = snd a \<and> rids ! i - 1 = fst a
                          then 1 else 0) [0..<length cids]))"
proof -
  obtain ids missing where g:
    "get_all_answer_ids_from_coordinates cids rids
       (map (\<lambda>coords. (snd coords, fst coords)) coords) = (ids, missing)"
    by (metis surj_pair)
  from get_all_answer_ids_from_coordinates_eq[OF g]
  have "ids = map (\<lambda>i. if \<exists>a \<in> set coords. cids ! i - 1 = snd a \<and> rids ! i - 1 = fst a
                          then 1 else 0) [0..<length cids]"
    and "missing = 0 \<longleftrightarrow>
         (\<forall>a \<in> set coords. get_cell_token_indexes cids rids (snd a) (fst a) \<noteq> [])"
    by (simp_all add: in_cell_def)
  then show ?thesis
    using g by (auto simp: get_answer_ids_def get_all_answer_ids_def)
qed

theorem get_answer_ids_marks_cells_witness:
  "length [0, 0, 0, 0, 0, 1, 1, 1, 2, 2 :: int] = length [0, 0, 0, 1, 2, 1, 1, 2, 1, 2 :: int]
   \<and> get_answer_ids [0, 0, 0, 1, 2, 1, 1, 2, 1, 2] [0, 0, 0, 0, 0, 1, 1, 1, 2, 2]
       ''Who is 30?'' [(0, 0), (1, 1)] = Inr [0, 0, 0, 0, 0, 1, 1, 0, 0, 1]
   \<and> get_answer_ids [0, 0, 0, 1, 2, 1, 1, 2, 1, 2] [0, 0, 0, 0, 0, 1, 1, 1, 2, 2]
       ''Who is 30?'' [(0, 0), (2, 1)] = Inl (ValueError ''Couldn't find all answers'')"
  using get_answer_ids_marks_cells[of "[0, 0, 0, 0, 0, 1, 1, 1, 2, 2]"
      "[0, 0, 0, 1, 2, 1, 1, 2, 1, 2]" "''Who is 30?''" "[(0, 0), (1, 1)]"]
    get_answer_ids_marks_cells[of "[0, 0, 0, 0, 0, 1, 1, 1, 2, 2]"
      "[0, 0, 0, 1, 2, 1, 1, 2, 1, 2]" "''Who is 30?''" "[(0, 0), (2, 1)]"]
  by (simp add: get_cell_token_indexes_def upt_rec)

subsection \<open>C8: the sort-key unifier\<close>

lemma get_all_types_error:
  "get_all_types vs = Inl e \<Longrightarrow> e = ValueError ''Unknown type''"
  by (induction vs arbitrary: e)
     (auto simp: get_value_type_def split: sum.splits if_splits)

lemma get_all_types_result:
  "get_all_types vs = Inr ts \<Longrightarrow>
     set ts = {t. \<exists>v \<in> set vs. get_value_type v = Inr t} \<and> distinct ts
     \<and> (\<forall>v \<in> set vs. \<exists>t. get_value_type v = Inr t)"
proof (induction vs arbitrary: ts)
  case Nil
  then show ?case by auto
next
  case (Cons v vs)
  from Cons.prems obtain t ts' where t: "get_value_type v = Inr t"
    and ts': "get_all_types vs = Inr ts'" and ts: "ts = List.insert t ts'"
    by (auto split: sum.splits)
  from Cons.IH[OF ts'] show ?case
    unfolding ts using t by auto
qed

lemma get_all_types_dates:
  "\<forall>v \<in> set vs. get_value_type v = Inr DATE_TYPE \<Longrightarrow>
     get_all_types vs = Inr (if vs = [] then [] else [DATE_TYPE])"
  by (induction vs) (auto split: sum.splits)

lemma date_value_primitive:
  "get_value_type v = Inr DATE_TYPE \<Longrightarrow>
     \<exists>d. date v = Some d \<and> get_value_as_primitive_value v = Inr (Tuple_value (date_tuple d))"
  by (auto simp: get_value_type_def get_value_as_primitive_value_def
        split: if_splits option.splits)

lemma discard_unset_dates:
  "\<forall>v \<in> set vs. get_value_type v = Inr DATE_TYPE \<Longrightarrow>
     discard_unset vs valid =
       Inr (filter (\<lambda>i. \<forall>v \<in> set vs. \<not> (i < 3 \<and> field_of v i = None)) valid)"
proof (induction vs arbitrary: valid)
  case Nil
  then show ?case by simp
next
  case (Cons v vs)
  from Cons.prems obtain d where d: "date v = Some d"
    "get_value_as_primitive_value v = Inr (Tuple_value (date_tuple d))"
    using date_value_primitive[of v] by auto
  have len: "length (date_tuple d) = 3" by (simp add: date_tuple_def)
  show ?case
    using Cons.prems d len
    by (simp add: Cons.IH field_of_def) (rule filter_cong, auto)
qed

lemma discard_unset_common_fields:
  "\<forall>v \<in> set vs. get_value_type v = Inr DATE_TYPE \<Longrightarrow>
     discard_unset vs [0, 1, 2] = Inr (common_fields vs)"
  by (simp add: discard_unset_dates common_fields_def)

lemma get_numeric_sort_key_fn_dates:
  assumes "vs \<noteq> []" "\<forall>v \<in> set vs. get_value_type v = Inr DATE_TYPE"
  shows "get_numeric_sort_key_fn vs =
     (if common_fields vs = [] then Inl (ValueError ''No common value'')
      else Inr (Date_key (common_fields vs)))"
proof -
  have "discard_unset vs [0, 1, 2] = Inr (common_fields vs)"
    using assms(2) by (rule discard_unset_common_fields)
  then show ?thesis
    unfolding get_numeric_sort_key_fn_def
    using assms by (simp add: get_all_types_dates del: One_nat_def)
qed

lemma sort_key_date:
  "get_value_type v = Inr DATE_TYPE \<Longrightarrow>
     sort_key (Date_key idx) v = Inr (Tuple_value (map (field_of v) idx))"
  using date_value_primitive[of v] by (auto simp: field_of_def)

text \<open>
  C8: building the sort key fails when the values hold a number and a date; it fails when
  all values are dates and no field is populated in all of them; and when all values are
  dates with a common field, the key it returns maps a date to the tuple of exactly the
  common fields, in the order year, month, day.
\<close>

theorem sort_key_unifier:
  "((\<exists>a \<in> set vs. get_value_type a = Inr NUMBER_TYPE) \<and>
    (\<exists>b \<in> set vs. get_value_type b = Inr DATE_TYPE) \<longrightarrow>
      get_numeric_sort_key_fn vs = Inl (ValueError ''No common value type'') \<or>
      get_numeric_sort_key_fn vs = Inl (ValueError ''Unknown type''))
   \<and> (vs \<noteq> [] \<and> (\<forall>v \<in> set vs. get_value_type v = Inr DATE_TYPE) \<and> common_fields vs = [] \<longrightarrow>
      get_numeric_sort_key_fn vs = Inl (ValueError ''No common value''))
   \<and> (vs \<noteq> [] \<and> (\<forall>v \<in> set vs. get_value_type v = Inr DATE_TYPE) \<and> common_fields vs \<noteq> [] \<longrightarrow>
      get_numeric_sort_key_fn vs = Inr (Date_key (common_fields vs)) \<and>
      (\<forall>v \<in> set vs. sort_key (Date_key (common_fields vs)) v =
                       Inr (Tuple_value (map (field_of v) (common_fields vs)))))"
proof (intro conjI impI)
  assume mixed: "(\<exists>a \<in> set vs. get_value_type a = Inr NUMBER_TYPE) \<and>
    (\<exists>b \<in> set vs. get_value_type b = Inr DATE_TYPE)"
  show "get_numeric_sort_key_fn vs = Inl (ValueError ''No common value type'') \<or>
      get_numeric_sort_key_fn vs = Inl (ValueError ''Unknown type'')"
  proof (cases "get_all_types vs")
    case (Inl e)
    then show ?thesis
      using get_all_types_error[OF Inl] by (simp add: get_numeric_sort_key_fn_def)
  next
    case (Inr ts)
    from get_all_types_result[OF Inr] mixed
    have "NUMBER_TYPE \<in> set ts" "DATE_TYPE \<in> set ts" by auto
    then have "length ts \<noteq> 1"
      by (cases ts) auto
    then show ?thesis
      using Inr by (simp add: get_numeric_sort_key_fn_def)
  qed
next
  assume h: "vs \<noteq> [] \<and> (\<forall>v \<in> set vs. get_value_type v = Inr DATE_TYPE) \<and> common_fields vs = []"
  then show "get_numeric_sort_key_fn vs = Inl (ValueError ''No common value'')"
    by (simp add: get_numeric_sort_key_fn_dates)
next
  assume h: "vs \<noteq> [] \<and> (\<forall>v \<in> set vs. get_value_type v = Inr DATE_TYPE) \<and> common_fields vs \<noteq> []"
  then show "get_numeric_sort_key_fn vs = Inr (Date_key (common_fields vs))"
    by (simp add: get_numeric_sort_key_fn_dates)
  from h show "\<forall>v \<in> set vs. sort_key (Date_key (common_fields vs)) v =
                       Inr (Tuple_value (map (field_of v) (common_fields vs)))"
    using sort_key_date by blast
qed

theorem sort_key_unifier_witness:
  "get_numeric_sort_key_fn [example_number 30, example_date (Some 2010) None None] =
     Inl (ValueError ''No common value type'')
   \<and> get_numeric_sort_key_fn [example_date (Some 2010) None None, example_date None (Some 8) None] =
     Inl (ValueError ''No common value'')
   \<and> get_numeric_sort_key_fn
       [example_date (Some 2010) (Some 5) (Some 5), example_date (Some 2007) (Some 8) None] =
     Inr (Date_key [0, 1])
   \<and> sort_key (Date_key [0, 1]) (example_date (Some 2007) (Some 8) None) =
     Inr (Tuple_value [Some 2007, Some 8])"
  using sort_key_unifier[of "[example_number 30, example_date (Some 2010) None None]"]
    sort_key_unifier[of "[example_date (Some 2010) None None, example_date None (Some 8) None]"]
    sort_key_unifier[of
      "[example_date (Some 2010) (Some 5) (Some 5), example_date (Some 2007) (Some 8) None]"]
  by (simp add: example_number_def example_date_def get_value_type_def common_fields_def
        field_of_def date_tuple_def get_numeric_sort_key_fn_def
        get_value_as_primitive_value_def)

subsection \<open>Loops that only write at the positions of data cells\<close>

lemma for_each_relation:
  assumes step: "\<And>x s s'. x \<in> set xs \<Longrightarrow> body x s = Inr s' \<Longrightarrow> R s s'"
    and refl: "\<And>s. R s s"
    and trans: "\<And>a b c. R a b \<Longrightarrow> R b c \<Longrightarrow> R a c"
  shows "for_each body xs s = Inr s' \<Longrightarrow> R s s'"
  using step
proof (induction xs arbitrary: s)
  case Nil
  then show ?case using refl by simp
next
  case (Cons x xs)
  from Cons.prems(1) obtain s1 where s1: "body x s = Inr s1"
    and rest: "for_each body xs s1 = Inr s'"
    by (auto split: sum.splits)
  have a: "R s s1" using Cons.prems(2)[of x s s1] s1 by simp
  have b: "R s1 s'"
  proof (rule Cons.IH[OF rest])
    fix y t t'
    assume "y \<in> set xs" "body y t = Inr t'"
    then show "R t t'" using Cons.prems(2)[of y t t'] by simp
  qed
  show ?case using trans[OF a b] .
qed

lemma fold_relation:
  assumes step: "\<And>x s. x \<in> set xs \<Longrightarrow> R s (f x s)"
    and refl: "\<And>s. R s s"
    and trans: "\<And>a b c. R a b \<Longrightarrow> R b c \<Longrightarrow> R a c"
  shows "R s (fold f xs s)"
  using step
proof (induction xs arbitrary: s)
  case Nil
  then show ?case using refl by simp
next
  case (Cons x xs)
  have a: "R s (f x s)" using Cons.prems by simp
  have b: "R (f x s) (fold f xs (f x s))" using Cons.IH Cons.prems by simp
  show ?case using trans[OF a b] by simp
qed

lemma changed_in_cells_refl: "changed_in_cells cids rids xs xs"
  by (simp add: changed_in_cells_def)

lemma changed_in_cells_trans:
  "changed_in_cells cids rids xs ys \<Longrightarrow> changed_in_cells cids rids ys zs
   \<Longrightarrow> changed_in_cells cids rids xs zs"
  unfolding changed_in_cells_def by metis

lemma cell_index_is_cell_position:
  "index \<in> set (get_cell_token_indexes cids rids (int c) (int r))
   \<Longrightarrow> cell_position cids rids index"
  by (auto simp: get_cell_token_indexes_def cell_position_def)

lemma changed_in_cells_update:
  "cell_position cids rids index \<Longrightarrow> changed_in_cells cids rids xs (xs[index := v])"
  by (auto simp: changed_in_cells_def) (metis nth_list_update_neq)

lemma changed_in_cells_assign:
  "cell_position cids rids index \<Longrightarrow> assign index v xs = Inr ys
   \<Longrightarrow> changed_in_cells cids rids xs ys"
  by (auto simp: assign_def changed_in_cells_update split: if_splits)

lemma changed_in_cells_fold_update:
  "changed_in_cells cids rids xs
     (fold (\<lambda>index ys. ys[index := v]) (get_cell_token_indexes cids rids (int c) (int r)) xs)"
  by (rule fold_relation[where R = "changed_in_cells cids rids"])
     (auto intro: changed_in_cells_update cell_index_is_cell_position
        changed_in_cells_refl changed_in_cells_trans)

lemma changed_in_cells_for_each_assign:
  "for_each (\<lambda>index. assign index v) (get_cell_token_indexes cids rids (int c) (int r)) xs
     = Inr ys \<Longrightarrow> changed_in_cells cids rids xs ys"
  by (erule for_each_relation[where R = "changed_in_cells cids rids", rotated 3])
     (auto intro: changed_in_cells_assign cell_index_is_cell_position
        changed_in_cells_refl changed_in_cells_trans)

definition both_changed_in_cells ::
  "int list \<Rightarrow> int list \<Rightarrow> int list \<times> int list \<Rightarrow> int list \<times> int list \<Rightarrow> bool" where
  "both_changed_in_cells cids rids s s' =
     (changed_in_cells cids rids (fst s) (fst s') \<and> changed_in_cells cids rids (snd s) (snd s'))"

lemma both_changed_in_cells_refl: "both_changed_in_cells cids rids s s"
  by (simp add: both_changed_in_cells_def changed_in_cells_refl)

lemma both_changed_in_cells_trans:
  "both_changed_in_cells cids rids a b \<Longrightarrow> both_changed_in_cells cids rids b c
   \<Longrightarrow> both_changed_in_cells cids rids a c"
  unfolding both_changed_in_cells_def using changed_in_cells_trans by blast

lemma write_rank_cell_changed:
  "both_changed_in_cells cids rids s
     (fold (\<lambda>index (ranks, inv_ranks). (ranks[index := a], inv_ranks[index := b]))
        (get_cell_token_indexes cids rids (int c) (int r)) s)"
proof (rule fold_relation[where R = "both_changed_in_cells cids rids"])
  fix index s
  assume "index \<in> set (get_cell_token_indexes cids rids (int c) (int r))"
  then show "both_changed_in_cells cids rids s
     ((\<lambda>(ranks, inv_ranks). (ranks[index := a], inv_ranks[index := b])) s)"
    by (cases s)
       (simp add: both_changed_in_cells_def changed_in_cells_update
          cell_index_is_cell_position)
qed (auto intro: both_changed_in_cells_refl both_changed_in_cells_trans)

lemma write_rank_rows_changed:
  "both_changed_in_cells cids rids s
     (fold (\<lambda>row_index.
        fold (\<lambda>index (ranks, inv_ranks). (ranks[index := a], inv_ranks[index := b]))
          (get_cell_token_indexes cids rids (int c) (int row_index))) rs s)"
  by (rule fold_relation[where R = "both_changed_in_cells cids rids"])
     (auto intro: write_rank_cell_changed both_changed_in_cells_refl
        both_changed_in_cells_trans)

lemma write_ranks_changed:
  "both_changed_in_cells cids rids s (write_ranks cids rids c unique_values values_inv s)"
  unfolding write_ranks_def
proof (rule fold_relation[where R = "both_changed_in_cells cids rids"])
  fix x :: "nat \<times> primitive_value" and s
  obtain rank k where x: "x = (rank, k)" by (cases x)
  show "both_changed_in_cells cids rids s
     ((\<lambda>(rank, k).
        fold (\<lambda>row_index.
           fold (\<lambda>index (ranks, inv_ranks).
                   (ranks[index := int rank + 1],
                    inv_ranks[index := int (length unique_values) - int rank]))
             (get_cell_token_indexes cids rids (int c) (int row_index)))
          (rows_of values_inv k)) x s)"
    unfolding x prod.case by (rule write_rank_rows_changed)
qed (auto intro: both_changed_in_cells_refl both_changed_in_cells_trans)

lemma write_ranks_changed_eq:
  "write_ranks cids rids c unique_values values_inv (ranks, inv_ranks) = (ranks', inv_ranks')
   \<Longrightarrow> both_changed_in_cells cids rids (ranks, inv_ranks) (ranks', inv_ranks')"
  using write_ranks_changed[of cids rids "(ranks, inv_ranks)" c unique_values values_inv]
  by simp

lemma rank_column_changed:
  "rank_column np cids rids table c (ranks, inv_ranks, m) = Inr (ranks', inv_ranks', m')
   \<Longrightarrow> both_changed_in_cells cids rids (ranks, inv_ranks) (ranks', inv_ranks')"
  unfolding rank_column_def
  by (auto simp: Let_def both_changed_in_cells_refl
        split: if_splits sum.splits error.splits prod.splits
        dest: write_ranks_changed_eq)

lemma rank_columns_changed:
  "for_each (rank_column np cids rids table) cs (ranks, inv_ranks, m) = Inr (ranks', inv_ranks', m')
   \<Longrightarrow> both_changed_in_cells cids rids (ranks, inv_ranks) (ranks', inv_ranks')"
proof -
  let ?R = "\<lambda>s s'. both_changed_in_cells cids rids (fst s, fst (snd s)) (fst s', fst (snd s'))"
  assume "for_each (rank_column np cids rids table) cs (ranks, inv_ranks, m)
            = Inr (ranks', inv_ranks', m')"
  then have "?R (ranks, inv_ranks, m) (ranks', inv_ranks', m')"
  proof (rule for_each_relation[where R = ?R, rotated 3])
    fix x s s'
    assume "rank_column np cids rids table x s = Inr s'"
    then show "?R s s'"
      using rank_column_changed[of np cids rids table x "fst s" "fst (snd s)" "snd (snd s)"
          "fst s'" "fst (snd s')" "snd (snd s')"]
      by simp
  qed (auto intro: both_changed_in_cells_refl both_changed_in_cells_trans)
  then show ?thesis by simp
qed

lemma changed_in_cells_replicate:
  "changed_in_cells cids rids (replicate n d) xs \<Longrightarrow>
     length xs = n \<and> (\<forall>i < n. \<not> cell_position cids rids i \<longrightarrow> xs ! i = d)"
  by (auto simp: changed_in_cells_def)

lemma add_numeric_column_ranks_changed:
  assumes "add_numeric_column_ranks np cids rids table features = Inr (f, m)"
  shows "\<exists>ranks inv_ranks.
     f = features(''column_ranks'' \<mapsto> Ints ranks, ''inv_column_ranks'' \<mapsto> Ints inv_ranks)
     \<and> changed_in_cells cids rids (replicate (length cids) 0) ranks
     \<and> changed_in_cells cids rids (replicate (length cids) 0) inv_ranks"
proof -
  from assms obtain ranks inv_ranks where
    loop: "for_each (rank_column np cids rids table) [0..<length (columns table)]
             (replicate (length cids) 0, replicate (length cids) 0, Map.empty)
           = Inr (ranks, inv_ranks, m)"
    and f: "f = features(''column_ranks'' \<mapsto> Ints ranks, ''inv_column_ranks'' \<mapsto> Ints inv_ranks)"
    by (auto simp: add_numeric_column_ranks_def split: sum.splits prod.splits)
  from rank_columns_changed[OF loop] f show ?thesis
    by (auto simp: both_changed_in_cells_def)
qed

lemma write_relations_changed:
  "write_relations cids rids cell_indices_to_relations xs = Inr ys
   \<Longrightarrow> changed_in_cells cids rids xs ys"
  unfolding write_relations_def
  by (erule for_each_relation[where R = "changed_in_cells cids rids", rotated 3])
     (auto split: sum.splits prod.splits
        intro: changed_in_cells_fold_update changed_in_cells_refl changed_in_cells_trans)

lemma add_numeric_relations_changed:
  assumes "add_numeric_relations np question cids rids table features m = Inr f"
  shows "\<exists>rel. f = features(''numeric_relations'' \<mapsto> Ints rel)
     \<and> changed_in_cells cids rids (replicate (length cids) 0) rel"
  using assms
  by (auto simp: add_numeric_relations_def split: sum.splits dest: write_relations_changed)

lemma numeric_values_row_changed:
  "numeric_values_row cids rids column_values c r xs = Inr ys
   \<Longrightarrow> changed_in_cells cids rids xs ys"
  by (auto simp: numeric_values_row_def changed_in_cells_refl
        split: option.splits dest: changed_in_cells_for_each_assign)

lemma add_numeric_values_changed:
  assumes "add_numeric_values self table cids rids features m = Inr f"
  shows "\<exists>nv. f = features(''numeric_values'' \<mapsto> Floats nv)
     \<and> changed_in_cells cids rids (replicate (nat (model_max_length self)) NaN) nv"
proof -
  let ?body = "\<lambda>col_index numeric_values.
               case m col_index of
                 None \<Rightarrow> Inl KeyError
               | Some column_values \<Rightarrow>
                   if column_values = [] then Inr numeric_values
                   else for_each (numeric_values_row cids rids column_values col_index)
                          [0..<shape0 table] numeric_values"
  from assms obtain nv where
    loop: "for_each ?body [0..<shape1 table] (replicate (nat (model_max_length self)) NaN)
             = Inr nv"
    and f: "f = features(''numeric_values'' \<mapsto> Floats nv)"
    by (auto simp: add_numeric_values_def split: sum.splits)
  have "changed_in_cells cids rids (replicate (nat (model_max_length self)) NaN) nv"
    using loop
  proof (rule for_each_relation[where R = "changed_in_cells cids rids", rotated 3])
    fix c and s s' :: "pyfloat list"
    assume b: "?body c s = Inr s'"
    show "changed_in_cells cids rids s s'"
    proof (cases "m c")
      case None
      then show ?thesis using b by simp
    next
      case (Some column_values)
      show ?thesis
      proof (cases "column_values = []")
        case True
        then show ?thesis using b Some by (simp add: changed_in_cells_refl)
      next
        case False
        then have "for_each (numeric_values_row cids rids column_values c)
                     [0..<shape0 table] s = Inr s'"
          using b Some by simp
        then show ?thesis
          by (rule for_each_relation[where R = "changed_in_cells cids rids", rotated 3])
             (auto intro: numeric_values_row_changed changed_in_cells_refl
                changed_in_cells_trans)
      qed
    qed
  qed (auto intro: changed_in_cells_refl changed_in_cells_trans)
  with f show ?thesis by blast
qed

lemma numeric_values_scale_cell_changed:
  "numeric_values_scale_cell cids rids c r xs = Inr ys \<Longrightarrow> changed_in_cells cids rids xs ys"
  by (auto simp: numeric_values_scale_cell_def Let_def changed_in_cells_refl
        split: if_splits dest: changed_in_cells_for_each_assign)

lemma add_numeric_values_scale_changed:
  assumes "add_numeric_values_scale self table cids rids features = Inr f"
  shows "\<exists>sc. f = features(''numeric_values_scale'' \<mapsto> Floats sc)
     \<and> changed_in_cells cids rids (replicate (nat (model_max_length self)) (Float 1)) sc"
proof -
  let ?body = "\<lambda>col_index.
               for_each (numeric_values_scale_cell cids rids col_index) [0..<shape0 table]"
  from assms obtain sc where
    loop: "for_each ?body [0..<shape1 table]
             (replicate (nat (model_max_length self)) (Float 1)) = Inr sc"
    and f: "f = features(''numeric_values_scale'' \<mapsto> Floats sc)"
    by (auto simp: add_numeric_values_scale_def split: sum.splits)
  have "changed_in_cells cids rids (replicate (nat (model_max_length self)) (Float 1)) sc"
    using loop
  proof (rule for_each_relation[where R = "changed_in_cells cids rids", rotated 3])
    fix c and s s' :: "pyfloat list"
    assume "?body c s = Inr s'"
    then show "changed_in_cells cids rids s s'"
      by (rule for_each_relation[where R = "changed_in_cells cids rids", rotated 3])
         (auto intro: numeric_values_scale_cell_changed changed_in_cells_refl
            changed_in_cells_trans)
  qed (auto intro: changed_in_cells_refl changed_in_cells_trans)
  with f show ?thesis by blast
qed

subsection \<open>C10: the numeric features keep their defaults outside the data cells\<close>



subsection \<open>Padding\<close>

lemma pop_while_longer_eq:
  "pop_while_longer n inputs = (if n < 0 then Inl IndexError else Inr (take (nat n) inputs))"
proof (induction n inputs rule: pop_while_longer.induct)
  case (1 n inputs)
  show ?case
  proof (cases "int (length inputs) > n")
    case False
    then show ?thesis by (subst pop_while_longer.simps) simp
  next
    case long: True
    show ?thesis
    proof (cases "inputs = []")
      case True
      then show ?thesis using long by (subst pop_while_longer.simps) simp
    next
      case False
      have "take (nat n) (butlast inputs) = take (nat n) inputs" if "0 \<le> n"
        using long that by (simp add: take_butlast)
      then show ?thesis
        using long False "1.IH" by (subst pop_while_longer.simps) simp
    qed
  qed
qed

lemma append_while_shorter_eq:
  "append_while_shorter n inputs = inputs @ replicate (nat n - length inputs) 0"
proof (induction n inputs rule: append_while_shorter.induct)
  case (1 n inputs)
  show ?case
  proof (cases "int (length inputs) < n")
    case True
    then have "nat n - length inputs = Suc (nat n - Suc (length inputs))" by linarith
    then show ?thesis
      using True "1.IH" by (subst append_while_shorter.simps) (simp add: replicate_app_Cons_same)
  next
    case False
    then show ?thesis by (subst append_while_shorter.simps) simp
  qed
qed

lemma pad_to_seq_length_eq:
  "pad_to_seq_length self inputs =
     (if model_max_length self < 0 then Inl IndexError
      else Inr (take (nat (model_max_length self)) inputs
                @ replicate (nat (model_max_length self) - length inputs) 0))"
  by (auto simp: pad_to_seq_length_def pop_while_longer_eq append_while_shorter_eq min_def)

lemma pad_to_seq_length_length:
  "pad_to_seq_length self inputs = Inr padded \<Longrightarrow>
     0 \<le> model_max_length self \<and> length padded = nat (model_max_length self)"
  by (auto simp: pad_to_seq_length_eq split: if_splits)

lemma pad_to_seq_length_short:
  "pad_to_seq_length self inputs = Inr padded \<Longrightarrow> int (length inputs) \<le> model_max_length self
   \<Longrightarrow> padded = inputs @ replicate (nat (model_max_length self) - length inputs) 0"
  by (auto simp: pad_to_seq_length_eq split: if_splits)

subsection \<open>The feature bundle of a serialized example\<close>

lemma pad_all_eq:
  "pad_all self d = Inr padded \<Longrightarrow>
     padded = map (\<lambda>(key, ids). (key, take (nat (model_max_length self)) ids
                @ replicate (nat (model_max_length self) - length ids) 0)) d"
  by (induction d arbitrary: padded)
     (auto simp: pad_to_seq_length_eq split: sum.splits if_splits)

lemma to_features_unfold:
  assumes "to_features np self toks d table question = Inr f"
  shows "\<exists>input_ids attention_mask padded cids rids f1 m f2 f3.
     (\<forall>ids \<in> set (map snd d). length ids = length toks) \<and>
     pad_to_seq_length self (map (convert_token_to_id self) toks) = Inr input_ids \<and>
     pad_to_seq_length self (map (\<lambda>_. 1) toks) = Inr attention_mask \<and>
     pad_all self d = Inr padded \<and>
     map_of padded ''column_ids'' = Some cids \<and> map_of padded ''row_ids'' = Some rids \<and>
     add_numeric_column_ranks np cids rids table
       (fold (\<lambda>(key, ids) features. features(key \<mapsto> Ints ids)) padded
          [''input_ids'' \<mapsto> Ints input_ids, ''attention_mask'' \<mapsto> Ints attention_mask])
       = Inr (f1, m) \<and>
     add_numeric_relations np question cids rids table f1 m = Inr f2 \<and>
     add_numeric_values self table cids rids f2 m = Inr f3 \<and>
     add_numeric_values_scale self table cids rids f3 = Inr f"
proof -
  have chk: "\<forall>ids \<in> set (map snd d). length ids = length toks"
    using assms unfolding to_features_def by (auto split: if_splits)
  then have c: "\<not> (\<exists>ids \<in> set (map snd d). length ids \<noteq> length toks)" by blast
  note a = assms[unfolded to_features_def if_not_P[OF c]]
  from a obtain input_ids where
    1: "pad_to_seq_length self (map (convert_token_to_id self) toks) = Inr input_ids"
    by (cases "pad_to_seq_length self (map (convert_token_to_id self) toks)") auto
  note a = a[unfolded 1 sum.case]
  from a obtain attention_mask where
    2: "pad_to_seq_length self (map (\<lambda>_. 1) toks) = Inr attention_mask"
    by (cases "pad_to_seq_length self (map (\<lambda>_. 1) toks)") auto
  note a = a[unfolded 2 sum.case]
  from a obtain padded where 3: "pad_all self d = Inr padded"
    by (cases "pad_all self d") auto
  note a = a[unfolded 3 sum.case]
  from a have 4: "\<not> (int (length input_ids) \<noteq> model_max_length self
          \<or> int (length attention_mask) \<noteq> model_max_length self
          \<or> (\<exists>ids \<in> set (map snd padded). int (length ids) \<noteq> model_max_length self))"
    by (auto split: if_splits)
  note a = a[unfolded if_not_P[OF 4]]
  from a obtain cids where 5: "map_of padded ''column_ids'' = Some cids"
    by (cases "map_of padded ''column_ids''") auto
  note a = a[unfolded 5 option.case]
  from a obtain rids where 6: "map_of padded ''row_ids'' = Some rids"
    by (cases "map_of padded ''row_ids''") auto
  note a = a[unfolded 6 option.case]
  let ?f0 = "fold (\<lambda>(key, ids) features. features(key \<mapsto> Ints ids)) padded
          [''input_ids'' \<mapsto> Ints input_ids, ''attention_mask'' \<mapsto> Ints attention_mask]"
  from a obtain f1 m where 7: "add_numeric_column_ranks np cids rids table ?f0 = Inr (f1, m)"
    by (cases "add_numeric_column_ranks np cids rids table ?f0") auto
  note a = a[unfolded 7 sum.case prod.case]
  from a obtain f2 where 8: "add_numeric_relations np question cids rids table f1 m = Inr f2"
    by (cases "add_numeric_relations np question cids rids table f1 m") auto
  note a = a[unfolded 8 sum.case]
  from a obtain f3 where 9: "add_numeric_values self table cids rids f2 m = Inr f3"
    by (cases "add_numeric_values self table cids rids f2 m") auto
  note a = a[unfolded 9 sum.case]
  from chk 1 2 3 5 6 7 8 9 a show ?thesis by blast
qed

lemma not_cell_position_padding:
  "length c = n \<Longrightarrow> n \<le> i \<Longrightarrow> \<not> cell_position (c @ replicate k 0) r i"
  by (auto simp: cell_position_def nth_append)

lemma nth_append_replicate:
  "length xs = n \<Longrightarrow> n \<le> i \<Longrightarrow> i < m \<Longrightarrow> (xs @ replicate (m - n) d) ! i = d"
  by (simp add: nth_append)

lemma to_features_bundle:
  assumes tf: "to_features np self toks
                 [(''column_ids'', c), (''row_ids'', r), (''segment_ids'', s)] table question
               = Inr f"
    and short: "int (length toks) \<le> model_max_length self"
  shows "bundle_of self (length toks) f"
    and "dom f = feature_names False - {''prev_label_ids''}"
proof -
  let ?n = "nat (model_max_length self)"
  let ?z = "replicate (?n - length toks) (0::int)"
  from to_features_unfold[OF tf] obtain input_ids attention_mask padded cids rids f1 m f2 f3
    where chk: "\<forall>ids \<in> set (map snd [(''column_ids'', c), (''row_ids'', r), (''segment_ids'', s)]).
                  length ids = length toks"
      and p1: "pad_to_seq_length self (map (convert_token_to_id self) toks) = Inr input_ids"
      and p2: "pad_to_seq_length self (map (\<lambda>_. 1) toks) = Inr attention_mask"
      and p3: "pad_all self [(''column_ids'', c), (''row_ids'', r), (''segment_ids'', s)]
                 = Inr padded"
      and l1: "map_of padded ''column_ids'' = Some cids"
      and l2: "map_of padded ''row_ids'' = Some rids"
      and r1: "add_numeric_column_ranks np cids rids table
         (fold (\<lambda>(key, ids) features. features(key \<mapsto> Ints ids)) padded
            [''input_ids'' \<mapsto> Ints input_ids, ''attention_mask'' \<mapsto> Ints attention_mask])
         = Inr (f1, m)"
      and r2: "add_numeric_relations np question cids rids table f1 m = Inr f2"
      and r3: "add_numeric_values self table cids rids f2 m = Inr f3"
      and r4: "add_numeric_values_scale self table cids rids f3 = Inr f"
    by blast
  have len: "length c = length toks" "length r = length toks" "length s = length toks"
    using chk by simp_all
  have nonneg: "0 \<le> model_max_length self"
    using p1 by (auto simp: pad_to_seq_length_eq split: if_splits)
  have le: "length toks \<le> ?n" using short nonneg by linarith
  have i1: "input_ids = map (convert_token_to_id self) toks @ ?z"
    using pad_to_seq_length_short[OF p1] short by simp
  have i2: "attention_mask = replicate (length toks) 1 @ ?z"
    using pad_to_seq_length_short[OF p2] short by (simp add: map_replicate_const)
  have pd: "padded = [(''column_ids'', c @ ?z), (''row_ids'', r @ ?z), (''segment_ids'', s @ ?z)]"
    using pad_all_eq[OF p3] len le by simp
  have cids: "cids = c @ ?z" and rids: "rids = r @ ?z"
    using l1 l2 unfolding pd by simp_all
  have lc: "length cids = ?n" using cids len le by simp
  let ?f0 = "[''input_ids'' \<mapsto> Ints input_ids, ''attention_mask'' \<mapsto> Ints attention_mask,
              ''column_ids'' \<mapsto> Ints (c @ ?z), ''row_ids'' \<mapsto> Ints (r @ ?z),
              ''segment_ids'' \<mapsto> Ints (s @ ?z)]"
  have f0: "fold (\<lambda>(key, ids) features. features(key \<mapsto> Ints ids)) padded
            [''input_ids'' \<mapsto> Ints input_ids, ''attention_mask'' \<mapsto> Ints attention_mask] = ?f0"
    unfolding pd by simp
  from add_numeric_column_ranks_changed[OF r1[unfolded f0]] obtain ranks inv_ranks where
    e1: "f1 = ?f0(''column_ranks'' \<mapsto> Ints ranks, ''inv_column_ranks'' \<mapsto> Ints inv_ranks)"
    and c1: "changed_in_cells cids rids (replicate (length cids) 0) ranks"
      "changed_in_cells cids rids (replicate (length cids) 0) inv_ranks"
    by blast
  from add_numeric_relations_changed[OF r2] obtain rel where
    e2: "f2 = f1(''numeric_relations'' \<mapsto> Ints rel)"
    and c2: "changed_in_cells cids rids (replicate (length cids) 0) rel"
    by blast
  from add_numeric_values_changed[OF r3] obtain nv where
    e3: "f3 = f2(''numeric_values'' \<mapsto> Floats nv)"
    and c3: "changed_in_cells cids rids (replicate ?n NaN) nv"
    by blast
  from add_numeric_values_scale_changed[OF r4] obtain sc where
    e4: "f = f3(''numeric_values_scale'' \<mapsto> Floats sc)"
    and c4: "changed_in_cells cids rids (replicate ?n (Float 1)) sc"
    by blast
  note d1 = changed_in_cells_replicate[OF c1(1)] changed_in_cells_replicate[OF c1(2)]
    changed_in_cells_replicate[OF c2]
  note d1 = d1[unfolded lc]
  note d3 = changed_in_cells_replicate[OF c3] changed_in_cells_replicate[OF c4]
  have pad_pos: "\<not> cell_position cids rids i" if "length toks \<le> i" for i
    unfolding cids using not_cell_position_padding[OF len(1) that] .
  have f_eq: "f = ?f0(''column_ranks'' \<mapsto> Ints ranks, ''inv_column_ranks'' \<mapsto> Ints inv_ranks,
                     ''numeric_relations'' \<mapsto> Ints rel, ''numeric_values'' \<mapsto> Floats nv,
                     ''numeric_values_scale'' \<mapsto> Floats sc)"
    unfolding e4 e3 e2 e1 ..
  have cases: "(name = ''input_ids'' \<and> v = Ints (map (convert_token_to_id self) toks @ ?z))
      \<or> (name = ''attention_mask'' \<and> v = Ints (replicate (length toks) 1 @ ?z))
      \<or> (name = ''column_ids'' \<and> v = Ints (c @ ?z))
      \<or> (name = ''row_ids'' \<and> v = Ints (r @ ?z))
      \<or> (name = ''segment_ids'' \<and> v = Ints (s @ ?z))
      \<or> (name = ''column_ranks'' \<and> v = Ints ranks)
      \<or> (name = ''inv_column_ranks'' \<and> v = Ints inv_ranks)
      \<or> (name = ''numeric_relations'' \<and> v = Ints rel)
      \<or> (name = ''numeric_values'' \<and> v = Floats nv)
      \<or> (name = ''numeric_values_scale'' \<and> v = Floats sc)"
    if "f name = Some v" for name v
    using that unfolding f_eq i1 i2 by (simp split: if_splits)
  have lens: "feature_length v = ?n" if "f name = Some v" for name v
    using cases[OF that] d1 d3 len le
    by (elim disjE) (simp_all add: feature_length_def)
  have zs: "(map (convert_token_to_id self) toks @ ?z) ! i = 0"
      "(replicate (length toks) 1 @ ?z) ! i = 0"
      "(c @ ?z) ! i = 0" "(r @ ?z) ! i = 0" "(s @ ?z) ! i = 0"
    if "length toks \<le> i" "i < ?n" for i
    using that len by (simp_all add: nth_append)
  have pads: "padded_at v name i"
    if "f name = Some v" "length toks \<le> i" "i < ?n" for name v i
    using cases[OF that(1)] d1 d3 pad_pos[OF that(2)] that(3) zs[OF that(2,3)]
    by (elim disjE) (simp_all add: padded_at_def)
  have mask: "f ''attention_mask'' = Some (Ints (replicate (length toks) 1 @ ?z))"
    unfolding f_eq i2 by simp
  show "bundle_of self (length toks) f"
    unfolding bundle_of_def using nonneg le lens pads mask by blast
  show "dom f = feature_names False - {''prev_label_ids''}"
    unfolding f_eq feature_names_def by auto
qed

lemma serialize_lengths:
  "serialize self q t nc nr nt = Inr ex \<Longrightarrow>
     length (column_ids ex) = length (tokens ex) \<and> length (row_ids ex) = length (tokens ex)
     \<and> length (segment_ids ex) = length (tokens ex)"
  by (auto simp: serialize_def serialize_text_def split: sum.splits)

lemma to_trimmed_features_bundle:
  assumes "to_trimmed_features np self question table question_tokens tokenized_table
             num_columns num_rows drop_rows = Some (Inr (ex, f))"
  shows "bundle_of self (length (tokens ex)) f"
    and "dom f = feature_names False - {''prev_label_ids''}"
    and "length (column_ids ex) = length (tokens ex)"
proof -
  from assms obtain fitted_rows num_tokens where
    ser: "serialize self question_tokens tokenized_table num_columns fitted_rows num_tokens
            = Inr ex"
    and short: "\<not> int (length (tokens ex)) > model_max_length self"
    and tf: "to_features np self (tokens ex)
               [(''column_ids'', column_ids ex), (''row_ids'', row_ids ex),
                (''segment_ids'', segment_ids ex)] table question = Inr f"
    unfolding to_trimmed_features_def
    by (auto split: option.splits sum.splits prod.splits if_splits)
  from short have le: "int (length (tokens ex)) \<le> model_max_length self" by simp
  show "bundle_of self (length (tokens ex)) f"
    by (rule to_features_bundle(1)[OF tf le])
  show "dom f = feature_names False - {''prev_label_ids''}"
    by (rule to_features_bundle(2)[OF tf le])
  show "length (column_ids ex) = length (tokens ex)"
    using serialize_lengths[OF ser] by simp
qed

subsection \<open>The label sequences\<close>

lemma get_answer_ids_length:
  "get_answer_ids cids rids question coords = Inr ids \<Longrightarrow> length ids = length cids"
proof -
  assume a: "get_answer_ids cids rids question coords = Inr ids"
  obtain ids' missing where g:
    "get_all_answer_ids_from_coordinates cids rids
       (map (\<lambda>coords. (snd coords, fst coords)) coords) = (ids', missing)"
    by (metis surj_pair)
  from a g have "ids = ids'"
    by (auto simp: get_answer_ids_def get_all_answer_ids_def split: if_splits)
  with get_all_answer_ids_from_coordinates_eq[OF g] show ?thesis by simp
qed

lemma mark_first_occurrence_length:
  "mark_first_occurrence cids rids answer_text cells xs = Inr ys \<Longrightarrow> length ys = length xs"
proof (induction cells arbitrary: xs)
  case Nil
  then show ?case by simp
next
  case (Cons cell cells)
  obtain r c toks where cell: "cell = (r, c, toks)" by (metis prod_cases3)
  from Cons.prems show ?case
    unfolding cell
    by (auto simp: Let_def fold_update_one dest: Cons.IH
          split: sum.splits option.splits if_splits)
qed

lemma find_answer_ids_in_cells_length:
  "find_answer_ids_in_cells cids rids answer_text cells xs = Inr ys \<Longrightarrow> length ys = length xs"
  by (auto simp: find_answer_ids_in_cells_def split: sum.splits
        dest: mark_first_occurrence_length)

lemma find_answer_ids_from_answer_texts_length:
  "find_answer_ids_from_answer_texts cids rids tokenized_table answer_texts = Inr ids
   \<Longrightarrow> length ids = length cids"
proof -
  assume "find_answer_ids_from_answer_texts cids rids tokenized_table answer_texts = Inr ids"
  then have "for_each (\<lambda>answer_text.
                 find_answer_ids_in_cells cids rids answer_text (table_cells tokenized_table))
       answer_texts (replicate (length cids) 0) = Inr ids"
    by (simp add: find_answer_ids_from_answer_texts_def)
  then have "length ids = length (replicate (length cids) (0::int))"
    by (rule for_each_relation[where R = "\<lambda>xs ys. length ys = length xs", rotated 3])
       (auto dest: find_answer_ids_in_cells_length)
  then show ?thesis by simp
qed

lemma find_answer_ids_from_answer_texts_raises:
  "answer_texts \<noteq> [] \<Longrightarrow>
   find_answer_ids_from_answer_texts cids rids tokenized_table answer_texts
     = Inl AttributeError"
  by (cases answer_texts)
    (simp_all add: find_answer_ids_from_answer_texts_def find_answer_ids_in_cells_def
      logging_info_def)

lemma public_get_answer_ids_length:
  "public_get_answer_ids self cids rids tokenized_table question texts coords = Inr ids
   \<Longrightarrow> length ids = length cids"
  by (auto simp: public_get_answer_ids_def split: if_splits
        dest: get_answer_ids_length find_answer_ids_from_answer_texts_length)

lemma bundle_of_input_ids:
  "bundle_of self n f \<Longrightarrow> f ''input_ids'' = Some v
   \<Longrightarrow> zeros_like_input_ids f = Inr (replicate (nat (model_max_length self)) 0)"
proof -
  assume b: "bundle_of self n f" and v: "f ''input_ids'' = Some v"
  from b v have "feature_length v = nat (model_max_length self)"
    unfolding bundle_of_def by blast
  then show ?thesis
    using v by (cases v) (simp_all add: zeros_like_input_ids_def feature_length_def)
qed

lemma pad_to_seq_length_exact:
  "0 \<le> model_max_length self \<Longrightarrow> length xs = nat (model_max_length self)
   \<Longrightarrow> pad_to_seq_length self xs = Inr xs"
  by (simp add: pad_to_seq_length_eq)

lemma bundle_of_add_prev:
  "bundle_of self n f \<Longrightarrow> length prev = nat (model_max_length self)
   \<Longrightarrow> bundle_of self n (f(''prev_label_ids'' \<mapsto> Ints prev))"
  by (auto simp: bundle_of_def feature_length_def)

lemma bundle_of_add_label:
  assumes "bundle_of self n f" "length answer_ids = n"
  shows "bundle_of self n
     (f(''label_ids'' \<mapsto> Ints (answer_ids @ replicate (nat (model_max_length self) - n) 0)))"
proof -
  let ?m = "nat (model_max_length self)"
  let ?lab = "answer_ids @ replicate (?m - n) (0::int)"
  from assms have n: "n \<le> ?m" by (simp add: bundle_of_def)
  have len: "feature_length (Ints ?lab) = ?m"
    using n assms(2) by (simp add: feature_length_def)
  have pad: "padded_at (Ints ?lab) name i" if "n \<le> i" "i < ?m" for name i
    using that assms(2) by (simp add: padded_at_def nth_append)
  show ?thesis
    using assms(1) len pad unfolding bundle_of_def
    by (simp split: if_splits)
qed

lemma label_features_result:
  assumes lf: "label_features self ex tt query answers position p f = Inr (f', p')"
    and b: "bundle_of self n f"
    and d: "dom f = feature_names False - {''prev_label_ids''}"
    and n: "length (column_ids ex) = n"
    and prevp: "position \<noteq> 0 \<Longrightarrow> answers \<noteq> None \<Longrightarrow>
                  \<exists>lab. p (position - 1) = Some lab \<and> length lab = nat (model_max_length self)"
  shows "bundle_of self n f' \<and> dom f' = feature_names (answers \<noteq> None) \<and>
    (\<exists>prev. f' ''prev_label_ids'' = Some (Ints prev) \<and>
       (if position = 0 \<or> answers = None then prev = replicate (nat (model_max_length self)) 0
        else p (position - 1) = Some prev)) \<and>
    (answers \<noteq> None \<longrightarrow> (\<exists>lab. p' position = Some lab \<and> f' ''label_ids'' = Some (Ints lab)))"
proof -
  let ?m = "nat (model_max_length self)"
  have nonneg: "0 \<le> model_max_length self" and le: "n \<le> ?m"
    using b by (simp_all add: bundle_of_def)
  have "''input_ids'' \<in> dom f" unfolding d feature_names_def by simp
  then obtain v where v: "f ''input_ids'' = Some v" by blast
  have zeros: "zeros_like_input_ids f = Inr (replicate ?m 0)"
    by (rule bundle_of_input_ids[OF b v])
  have padz: "pad_to_seq_length self (replicate ?m 0) = Inr (replicate ?m 0)"
    by (rule pad_to_seq_length_exact[OF nonneg]) simp
  show ?thesis
  proof (cases answers)
    case None
    from lf have f': "f' = f(''prev_label_ids'' \<mapsto> Ints (replicate ?m 0))" and "p' = p"
      unfolding label_features_def None by (simp_all add: zeros padz)
    have "bundle_of self n f'"
      unfolding f' by (rule bundle_of_add_prev[OF b]) simp
    moreover have "dom f' = feature_names False"
      unfolding f' using d by (auto simp: feature_names_def)
    ultimately show ?thesis using None f' by simp
  next
    case (Some a)
    obtain texts coords where a: "a = (texts, coords)" by (cases a)
    note lf1 = lf[unfolded label_features_def Some a option.case prod.case]
    from lf1 obtain answer_ids where
      ans: "public_get_answer_ids self (column_ids ex) (row_ids ex) tt query texts coords
              = Inr answer_ids"
      by (cases "public_get_answer_ids self (column_ids ex) (row_ids ex) tt query texts coords")
         auto
    have alen: "length answer_ids = n"
      using public_get_answer_ids_length[OF ans] n by simp
    let ?lab = "answer_ids @ replicate (?m - n) 0"
    have padl: "pad_to_seq_length self answer_ids = Inr ?lab"
      using nonneg le alen by (simp add: pad_to_seq_length_eq)
    note lf2 = lf1[unfolded ans sum.case padl]
    have blab: "bundle_of self n (f(''label_ids'' \<mapsto> Ints ?lab))"
      by (rule bundle_of_add_label[OF b alen])
    show ?thesis
    proof (cases "position = 0")
      case True
      from lf2 have f': "f' = f(''label_ids'' \<mapsto> Ints ?lab,
                                 ''prev_label_ids'' \<mapsto> Ints (replicate ?m 0))"
        and p': "p' = p(position \<mapsto> ?lab)"
        unfolding True by (simp_all add: zeros padz)
      have "bundle_of self n f'"
        unfolding f' by (rule bundle_of_add_prev[OF blab]) simp
      moreover have "dom f' = feature_names True"
        unfolding f' using d by (auto simp: feature_names_def)
      ultimately show ?thesis using Some f' p' True by simp
    next
      case False
      from prevp[OF False] Some obtain prev where
        prev: "p (position - 1) = Some prev" "length prev = ?m" by auto
      have "position - 1 \<noteq> position" using False by simp
      then have look: "(p(position \<mapsto> ?lab)) (position - 1) = Some prev"
        using prev(1) by (metis fun_upd_other)
      have padp: "pad_to_seq_length self prev = Inr prev"
        by (rule pad_to_seq_length_exact[OF nonneg prev(2)])
      note lf3 = lf2[unfolded if_not_P[OF False] look option.case sum.case padp]
      from lf3 have f': "f' = f(''label_ids'' \<mapsto> Ints ?lab, ''prev_label_ids'' \<mapsto> Ints prev)"
        and p': "p' = p(position \<mapsto> ?lab)"
        by simp_all
      have "bundle_of self n f'"
        unfolding f' by (rule bundle_of_add_prev[OF blab prev(2)])
      moreover have "dom f' = feature_names True"
        unfolding f' using d by (auto simp: feature_names_def)
      ultimately show ?thesis using Some f' p' False prev by simp
    qed
  qed
qed

subsection \<open>The bundles of a batch\<close>

lemma encode_queries_ok:
  assumes "encode_queries np self table tt nc nr answers (enumerate (length fe) qs) (fe, p)
             = Some (Inr (fs, p'))"
    and "batch_ok self (answers \<noteq> None) fe"
    and "answers \<noteq> None \<Longrightarrow> fe \<noteq> [] \<Longrightarrow>
           \<exists>lab. p (length fe - 1) = Some lab \<and> (last fe) ''label_ids'' = Some (Ints lab)"
  shows "batch_ok self (answers \<noteq> None) fs \<and> length fs = length fe + length qs"
  using assms
proof (induction qs arbitrary: fe p)
  case Nil
  then show ?case by simp
next
  case (Cons q qs)
  let ?sup = "answers \<noteq> None"
  let ?pos = "length fe"
  let ?m = "nat (model_max_length self)"
  note run = Cons.prems(1)[unfolded enumerate_simps encode_queries.simps]
  from run obtain ex f where
    tf: "to_trimmed_features np self q table (tokenize self q) tt nc nr (drop_rows_to_fit self)
           = Some (Inr (ex, f))"
    by (auto split: option.splits sum.splits)
  note run = run[unfolded tf option.case sum.case prod.case]
  let ?ans = "case answers of
                None \<Rightarrow> Inr None
              | Some per_query \<Rightarrow>
                  if ?pos < length per_query then Inr (Some (per_query ! ?pos))
                  else Inl IndexError"
  from run obtain answer where an: "?ans = Inr answer"
    by (cases ?ans) auto
  have an_sup: "answer \<noteq> None \<longleftrightarrow> ?sup"
    using an by (auto split: option.splits if_splits)
  then have an_none: "answer = None \<longleftrightarrow> answers = None" by blast
  note run = run[unfolded an sum.case]
  from run obtain f' p1 where
    lf: "label_features self ex tt q answer ?pos p f = Inr (f', p1)"
    by (cases "label_features self ex tt q answer ?pos p f") auto
  note run = run[unfolded lf sum.case prod.case]
  note b = to_trimmed_features_bundle[OF tf]
  have prevp: "\<exists>lab. p (?pos - 1) = Some lab \<and> length lab = ?m"
    if "?pos \<noteq> 0" "answer \<noteq> None"
  proof -
    from that an_sup have sup: "?sup" and ne: "fe \<noteq> []" by auto
    from Cons.prems(3)[OF sup ne] obtain lab where
      lab: "p (?pos - 1) = Some lab" "(last fe) ''label_ids'' = Some (Ints lab)" by blast
    have "?pos - 1 < length fe" using ne by simp
    with Cons.prems(2) obtain n where "bundle_of self n (fe ! (?pos - 1))"
      unfolding batch_ok_def by blast
    then have "bundle_of self n (last fe)" using ne by (simp add: last_conv_nth)
    with lab(2) have "feature_length (Ints lab) = ?m"
      unfolding bundle_of_def by blast
    with lab(1) show ?thesis by (simp add: feature_length_def)
  qed
  from label_features_result[OF lf b(1) b(2) b(3) prevp]
  have r1: "bundle_of self (length (tokens ex)) f'"
    and r2: "dom f' = feature_names (answer \<noteq> None)"
    and r3: "\<exists>prev. f' ''prev_label_ids'' = Some (Ints prev) \<and>
       (if ?pos = 0 \<or> answer = None then prev = replicate ?m 0
        else p (?pos - 1) = Some prev)"
    and r4: "answer \<noteq> None \<longrightarrow>
       (\<exists>lab. p1 ?pos = Some lab \<and> f' ''label_ids'' = Some (Ints lab))"
    by blast+
  have ok': "batch_ok self ?sup (fe @ [f'])"
    unfolding batch_ok_def
  proof (intro allI impI)
    fix j assume j: "j < length (fe @ [f'])"
    show "(\<exists>n. bundle_of self n ((fe @ [f']) ! j)) \<and>
        dom ((fe @ [f']) ! j) = feature_names ?sup \<and>
        (\<exists>prev. ((fe @ [f']) ! j) ''prev_label_ids'' = Some (Ints prev) \<and>
           (if j = 0 \<or> \<not> ?sup then prev = replicate ?m 0
            else ((fe @ [f']) ! (j - 1)) ''label_ids'' = Some (Ints prev)))"
    proof (cases "j < length fe")
      case True
      then have "j - 1 < length fe" by simp
      with True have e: "(fe @ [f']) ! j = fe ! j" "(fe @ [f']) ! (j - 1) = fe ! (j - 1)"
        by (simp_all only: nth_append if_True)
      from Cons.prems(2) True have P: "(\<exists>n. bundle_of self n (fe ! j)) \<and>
        dom (fe ! j) = feature_names ?sup \<and>
        (\<exists>prev. (fe ! j) ''prev_label_ids'' = Some (Ints prev) \<and>
           (if j = 0 \<or> \<not> ?sup then prev = replicate ?m 0
            else (fe ! (j - 1)) ''label_ids'' = Some (Ints prev)))"
        unfolding batch_ok_def by blast
      show ?thesis unfolding e by (rule P)
    next
      case False
      with j have jl: "j = length fe" by simp
      from r3 obtain prev where
        prev: "f' ''prev_label_ids'' = Some (Ints prev)"
        "if ?pos = 0 \<or> answer = None then prev = replicate ?m 0
         else p (?pos - 1) = Some prev"
        by blast
      have "if j = 0 \<or> \<not> ?sup then prev = replicate ?m 0
            else ((fe @ [f']) ! (j - 1)) ''label_ids'' = Some (Ints prev)"
      proof (cases "j = 0 \<or> \<not> ?sup")
        case True
        then have "?pos = 0 \<or> answer = None" using jl an_none by auto
        with prev(2) have "prev = replicate ?m 0" by (simp only: if_True)
        with True show ?thesis by (simp only: if_True)
      next
        case False
        then have sup: "?sup" and ne: "fe \<noteq> []" using jl by auto
        from Cons.prems(3)[OF sup ne] obtain lab where
          lab: "p (?pos - 1) = Some lab" "(last fe) ''label_ids'' = Some (Ints lab)" by blast
        from False jl an_none have "\<not> (?pos = 0 \<or> answer = None)" by auto
        with prev(2) have "p (?pos - 1) = Some prev" by (simp only: if_False)
        with lab have "(last fe) ''label_ids'' = Some (Ints prev)" by simp
        moreover have "(fe @ [f']) ! (j - 1) = last fe"
          using ne jl by (simp add: nth_append last_conv_nth)
        ultimately have "((fe @ [f']) ! (j - 1)) ''label_ids'' = Some (Ints prev)" by simp
        with False show ?thesis by (simp only: if_False)
      qed
      moreover have "(fe @ [f']) ! j = f'" using jl by simp
      moreover have "dom f' = feature_names ?sup" using r2 an_sup by simp
      ultimately show ?thesis using prev(1) r1 by auto
    qed
  qed
  have inv': "\<exists>lab. p1 (length (fe @ [f']) - 1) = Some lab
                  \<and> (last (fe @ [f'])) ''label_ids'' = Some (Ints lab)"
    if "?sup" "fe @ [f'] \<noteq> []"
    using r4 that(1) an_sup by simp
  have rest: "encode_queries np self table tt nc nr answers
                (enumerate (length (fe @ [f'])) qs) (fe @ [f'], p1) = Some (Inr (fs, p'))"
    using run by simp
  from Cons.IH[OF rest ok' inv'] show ?case by simp
qed

lemma batch_prepare_for_model_ok:
  assumes "batch_prepare_for_model np self table queries answer_coordinates answer_texts
             = Some (Inr fs)"
  shows "batch_ok self (answer_coordinates \<noteq> None \<and> answer_texts \<noteq> None) fs
         \<and> length fs = length queries"
proof -
  let ?answers = "case (answer_coordinates, answer_texts) of
                (Some coordinates, Some texts) \<Rightarrow>
                  if length coordinates = length texts \<and> length texts = length queries
                  then Inr (Some (zip texts coordinates)) else Inl AssertionError
              | _ \<Rightarrow> Inr None"
  from assms obtain answers nr nc p' where
    an: "?answers = Inr answers"
    and run: "encode_queries np self table (tokenize_table self table) nc nr answers
                (enumerate 0 queries) ([], Map.empty) = Some (Inr (fs, p'))"
    unfolding batch_prepare_for_model_def
    by (auto split: if_splits sum.splits option.splits prod.splits)
  have sup: "answers \<noteq> None \<longleftrightarrow> (answer_coordinates \<noteq> None \<and> answer_texts \<noteq> None)"
    using an by (auto split: option.splits if_splits)
  have ok0: "batch_ok self (answers \<noteq> None) []" by (simp add: batch_ok_def)
  have run': "encode_queries np self table (tokenize_table self table) nc nr answers
                (enumerate (length ([] :: Features list)) queries) ([], Map.empty)
              = Some (Inr (fs, p'))"
    using run by simp
  have "batch_ok self (answers \<noteq> None) fs
        \<and> length fs = length ([] :: Features list) + length queries"
    by (rule encode_queries_ok[OF run' ok0]) simp
  then show ?thesis using sup by simp
qed

subsection \<open>C2: every feature sequence has the model length\<close>

text \<open>
  C2: when the batch call returns, the bundle of every query holds exactly the named
  sequences (with \<open>label_ids\<close> when answers are given), every one of them of length
  \<open>model_max_length\<close>. The attention mask is 1 on the tokens of the example and 0
  after them, and after the tokens every sequence built from the example holds its pad
  value: 0 in the id sequences, NaN in \<open>numeric_values\<close> and 1.0 in
  \<open>numeric_values_scale\<close>. The sequence \<open>prev_label_ids\<close> is all zeros for the
  first query and without answers, and is the padded \<open>label_ids\<close> of the query before
  otherwise.
\<close>

theorem batch_feature_sequences:
  assumes "batch_prepare_for_model np self table queries answer_coordinates answer_texts
             = Some (Inr fs)"
    and "j < length fs"
  shows "dom (fs ! j) = feature_names (answer_coordinates \<noteq> None \<and> answer_texts \<noteq> None)
     \<and> (\<forall>name v. (fs ! j) name = Some v \<longrightarrow>
            int (feature_length v) = model_max_length self)
     \<and> (\<exists>n \<le> nat (model_max_length self).
            (fs ! j) ''attention_mask'' =
              Some (Ints (replicate n 1 @ replicate (nat (model_max_length self) - n) 0)) \<and>
            (\<forall>name v i. (fs ! j) name = Some v \<and> name \<noteq> ''prev_label_ids'' \<and> n \<le> i
                         \<and> i < nat (model_max_length self) \<longrightarrow> padded_at v name i))
     \<and> (\<exists>prev. (fs ! j) ''prev_label_ids'' = Some (Ints prev) \<and>
            (if j = 0 \<or> \<not> (answer_coordinates \<noteq> None \<and> answer_texts \<noteq> None)
             then prev = replicate (nat (model_max_length self)) 0
             else (fs ! (j - 1)) ''label_ids'' = Some (Ints prev)))"
proof -
  let ?sup = "answer_coordinates \<noteq> None \<and> answer_texts \<noteq> None"
  from batch_prepare_for_model_ok[OF assms(1)] assms(2)
  obtain n where b: "bundle_of self n (fs ! j)"
    and d: "dom (fs ! j) = feature_names ?sup"
    and p: "\<exists>prev. (fs ! j) ''prev_label_ids'' = Some (Ints prev) \<and>
            (if j = 0 \<or> \<not> ?sup then prev = replicate (nat (model_max_length self)) 0
             else (fs ! (j - 1)) ''label_ids'' = Some (Ints prev))"
    unfolding batch_ok_def by blast
  from b have nonneg: "0 \<le> model_max_length self"
    and len: "\<And>name v. (fs ! j) name = Some v \<Longrightarrow>
                 feature_length v = nat (model_max_length self)"
    and rest: "n \<le> nat (model_max_length self) \<and>
            (fs ! j) ''attention_mask'' =
              Some (Ints (replicate n 1 @ replicate (nat (model_max_length self) - n) 0)) \<and>
            (\<forall>name v i. (fs ! j) name = Some v \<and> name \<noteq> ''prev_label_ids'' \<and> n \<le> i
                         \<and> i < nat (model_max_length self) \<longrightarrow> padded_at v name i)"
    unfolding bundle_of_def by blast+
  have "\<forall>name v. (fs ! j) name = Some v \<longrightarrow> int (feature_length v) = model_max_length self"
    using len nonneg by simp
  with d p rest show ?thesis by blast
qed

theorem batch_feature_sequences_witness:
  "\<exists>fs. batch_prepare_for_model example_parser example_tokenizer example_table
           [''Who is 30?'', ''Who is 30?''] (Some [[(0, 1)], [(1, 1)]])
           (Some [[''30''], [''25'']]) = Some (Inr fs)
     \<and> length fs = 2
     \<and> dom (fs ! 1) = feature_names True
     \<and> (fs ! 1) ''input_ids'' = Some (Ints [5, 3, 2, 2, 1, 5, 4, 3, 2, 5, 2, 3, 2, 0, 0, 0])
     \<and> (fs ! 1) ''attention_mask'' = Some (Ints [1, 1, 1, 1, 1, 1, 1, 1, 1, 1, 1, 1, 1, 0, 0, 0])
     \<and> (fs ! 1) ''label_ids'' = Some (Ints [0, 0, 0, 0, 0, 0, 0, 0, 0, 0, 0, 0, 1, 0, 0, 0])
     \<and> (fs ! 1) ''prev_label_ids'' = Some (Ints [0, 0, 0, 0, 0, 0, 0, 0, 0, 0, 1, 0, 0, 0, 0, 0])
     \<and> (fs ! 1) ''numeric_values'' =
         Some (Floats [NaN, NaN, NaN, NaN, NaN, NaN, NaN, NaN, NaN, NaN, Float 30, NaN,
                       Float 25, NaN, NaN, NaN])"
proof -
  have ev: "(case batch_prepare_for_model example_parser example_tokenizer example_table
                 [''Who is 30?'', ''Who is 30?''] (Some [[(0, 1)], [(1, 1)]])
                 (Some [[''30''], [''25'']]) of
               Some (Inr fs) \<Rightarrow>
                 Some (length fs,
                       map (fs ! 1) [''input_ids'', ''attention_mask'', ''label_ids'',
                                     ''prev_label_ids'', ''numeric_values''])
             | _ \<Rightarrow> None) =
      Some (2, [Some (Ints [5, 3, 2, 2, 1, 5, 4, 3, 2, 5, 2, 3, 2, 0, 0, 0]),
                Some (Ints [1, 1, 1, 1, 1, 1, 1, 1, 1, 1, 1, 1, 1, 0, 0, 0]),
                Some (Ints [0, 0, 0, 0, 0, 0, 0, 0, 0, 0, 0, 0, 1, 0, 0, 0]),
                Some (Ints [0, 0, 0, 0, 0, 0, 0, 0, 0, 0, 1, 0, 0, 0, 0, 0]),
                Some (Floats [NaN, NaN, NaN, NaN, NaN, NaN, NaN, NaN, NaN, NaN, Float 30,
                              NaN, Float 25, NaN, NaN, NaN])])"
    by code_simp
  then obtain fs where
    r: "batch_prepare_for_model example_parser example_tokenizer example_table
           [''Who is 30?'', ''Who is 30?''] (Some [[(0, 1)], [(1, 1)]])
           (Some [[''30''], [''25'']]) = Some (Inr fs)"
    and v: "length fs = 2"
      "(fs ! 1) ''input_ids'' = Some (Ints [5, 3, 2, 2, 1, 5, 4, 3, 2, 5, 2, 3, 2, 0, 0, 0])"
      "(fs ! 1) ''attention_mask'' = Some (Ints [1, 1, 1, 1, 1, 1, 1, 1, 1, 1, 1, 1, 1, 0, 0, 0])"
      "(fs ! 1) ''label_ids'' = Some (Ints [0, 0, 0, 0, 0, 0, 0, 0, 0, 0, 0, 0, 1, 0, 0, 0])"
      "(fs ! 1) ''prev_label_ids'' = Some (Ints [0, 0, 0, 0, 0, 0, 0, 0, 0, 0, 1, 0, 0, 0, 0, 0])"
      "(fs ! 1) ''numeric_values'' =
         Some (Floats [NaN, NaN, NaN, NaN, NaN, NaN, NaN, NaN, NaN, NaN, Float 30, NaN,
                       Float 25, NaN, NaN, NaN])"
    by (auto split: option.splits sum.splits)
  have j: "1 < length fs" using v(1) by simp
  from batch_feature_sequences[OF r j]
  have "dom (fs ! 1) = feature_names True" by simp
  with r v show ?thesis by blast
qed

subsection \<open>The budget fitter on a tokenized table\<close>

lemma get_table_cost_tokenize_table:
  "get_table_cost (tokenize_table self table) nc nr nt
     = Inr (cost_of (tokenize_table self table) nc nr nt)"
  by (simp add: get_table_cost_def get_table_values_tokenize_table cost_of_def)



lemma cost_of_nonneg: "0 \<le> cost_of t nc nr nt"
  by (simp add: cost_of_def)

lemma scan_num_tokens_result:
  assumes "\<And>k. cost k = Inr (c k)" and "n = nat (M + 1 - a)"
  shows "\<exists>k. scan_num_tokens cost b [a..M] cur = Inr k
     \<and> (if a \<le> M
         then a \<le> k \<and> k \<le> M
              \<and> (\<forall>j. a \<le> j \<and> j < k \<longrightarrow> c (j + 1) \<le> b)
              \<and> (k < M \<longrightarrow> b < c (k + 1))
         else k = cur)"
  using assms(2)
proof (induction n arbitrary: a cur)
  case 0
  then have "\<not> a \<le> M" by simp
  then show ?case by simp
next
  case (Suc n)
  then have le: "a \<le> M" and n: "n = nat (M + 1 - (a + 1))" by simp_all
  have up: "[a..M] = a # [a + 1..M]" using le by (simp add: upto_rec1)
  show ?case
  proof (cases "b < c (a + 1)")
    case True
    then show ?thesis using le by (simp add: up assms(1))
  next
    case False
    from Suc.IH[OF n, of a] obtain k where
      k: "scan_num_tokens cost b [a + 1..M] a = Inr k"
      "if a + 1 \<le> M
       then a + 1 \<le> k \<and> k \<le> M
            \<and> (\<forall>j. a + 1 \<le> j \<and> j < k \<longrightarrow> c (j + 1) \<le> b)
            \<and> (k < M \<longrightarrow> b < c (k + 1))
       else k = a"
      by blast
    have r: "scan_num_tokens cost b [a..M] cur = Inr k"
      using False k(1) by (simp add: up assms(1))
    have 1: "a \<le> k \<and> k \<le> M" using k(2) le by (auto split: if_splits)
    have 2: "\<forall>j. a \<le> j \<and> j < k \<longrightarrow> c (j + 1) \<le> b"
    proof (intro allI impI)
      fix j assume j: "a \<le> j \<and> j < k"
      show "c (j + 1) \<le> b"
      proof (cases "j = a")
        case True
        then show ?thesis using False by simp
      next
        case False
        then have "a + 1 \<le> j \<and> j < k" using j by simp
        then show ?thesis using k(2) by (auto split: if_splits)
      qed
    qed
    have 3: "k < M \<longrightarrow> b < c (k + 1)"
      using k(2) by (auto split: if_splits)
    from r 1 2 3 le show ?thesis by simp
  qed
qed

lemma boundaries_tokens_fold:
  "snd (snd (fold (\<lambda>tc (max_num_rows, max_num_columns, max_num_tokens).
             (min mr (max max_num_rows (int (row_index tc) + 1)),
              min mc (max max_num_columns (int (column_index tc) + 1)),
              max max_num_tokens (int (token_index tc) + 1)))
          tcs (x, y, z))) = fold (\<lambda>tc m. max m (int (token_index tc) + 1)) tcs z"
  by (induction tcs arbitrary: x y z) simp_all

lemma max_num_tokens_eq:
  "snd (snd (get_table_boundaries self t))
     = fold (\<lambda>tc m. max m (int (token_index tc) + 1)) (selected_tokens t) 0"
  by (simp add: get_table_boundaries_def boundaries_tokens_fold)

lemma fold_max_bounds:
  "z \<le> fold (\<lambda>tc m. max m (int (token_index tc) + 1)) tcs z
   \<and> (\<forall>tc \<in> set tcs. int (token_index tc) + 1
          \<le> fold (\<lambda>tc m. max m (int (token_index tc) + 1)) tcs z)"
proof (induction tcs arbitrary: z)
  case Nil
  then show ?case by simp
next
  case (Cons tc tcs)
  from Cons.IH[of "max z (int (token_index tc) + 1)"] show ?case by auto
qed

lemma capped_max_num_tokens_nonneg: "0 \<le> capped_max_num_tokens self t"
  using fold_max_bounds[of 0 "selected_tokens t"]
  by (simp add: capped_max_num_tokens_def max_num_tokens_eq Let_def)

lemma capped_max_num_tokens_model_max_length:
  "capped_max_num_tokens (self\<lparr>model_max_length := m\<rparr>) t = capped_max_num_tokens self t"
  by (simp add: capped_max_num_tokens_def max_num_tokens_eq Let_def)


text \<open>
  The value of \<open>num_tokens\<close> after the scan: it lies between 0 and the capped maximum,
  every smaller cap has a cost within the budget, and below the maximum it is the cap at
  which the loop broke.
\<close>

lemma get_max_num_tokens_tokenize_table:
  fixes self table q nc nr
  defines "t \<equiv> tokenize_table self table"
  defines "M \<equiv> capped_max_num_tokens self t"
  defines "b \<equiv> get_token_budget self q"
  shows "\<exists>k. 0 \<le> k \<and> k \<le> M
     \<and> (\<forall>j. 0 \<le> j \<and> j < k \<longrightarrow> cost_of t nc nr (j + 1) \<le> b)
     \<and> (k < M \<longrightarrow> b < cost_of t nc nr (k + 1))
     \<and> get_max_num_tokens self q t nc nr =
         Inr (if k < M \<and> (0 \<le> cell_trim_length self \<or> k = 0) then None else Some k)"
proof -
  have M: "0 \<le> M" unfolding M_def by (rule capped_max_num_tokens_nonneg)
  from scan_num_tokens_result[of "get_table_cost t nc nr" "cost_of t nc nr"
      "nat (M + 1 - 0)" M 0 b 0]
  obtain k where k: "scan_num_tokens (get_table_cost t nc nr) b [0..M] 0 = Inr k"
    "0 \<le> k \<and> k \<le> M" "\<forall>j. 0 \<le> j \<and> j < k \<longrightarrow> cost_of t nc nr (j + 1) \<le> b"
    "k < M \<longrightarrow> b < cost_of t nc nr (k + 1)"
    using M unfolding t_def by (auto simp: get_table_cost_tokenize_table)
  have "get_max_num_tokens self q t nc nr =
         Inr (if k < M \<and> (0 \<le> cell_trim_length self \<or> k = 0) then None else Some k)"
    unfolding get_max_num_tokens_def Let_def
    using k(1) by (simp add: M_def b_def)
  with k show ?thesis by blast
qed


lemma trimmed_fit_fits:
  "get_max_num_tokens self q t nc nr = Inr (Some k)
   \<Longrightarrow> trimmed_fit self q t nc nr drop_rows = Some (Inr (nr, k))"
  by (subst trimmed_fit.simps) simp

lemma trimmed_fit_error:
  "get_max_num_tokens self q t nc nr = Inl e
   \<Longrightarrow> trimmed_fit self q t nc nr drop_rows = Some (Inl e)"
  by (subst trimmed_fit.simps) simp

lemma trimmed_fit_fails:
  "get_max_num_tokens self q t nc nr = Inr None \<Longrightarrow> nr = 0 \<or> \<not> drop_rows
   \<Longrightarrow> trimmed_fit self q t nc nr drop_rows = Some (Inl (ValueError ''Sequence too long''))"
  by (subst trimmed_fit.simps) auto

lemma trimmed_fit_drops_row:
  "get_max_num_tokens self q t nc nr = Inr None \<Longrightarrow> nr \<noteq> 0
   \<Longrightarrow> trimmed_fit self q t nc nr True = trimmed_fit self q t nc (nr - 1) True"
  by (subst trimmed_fit.simps) simp

lemma trimmed_fit_returns:
  "\<exists>res. trimmed_fit self q t nc (int n) drop_rows = Some res
     \<and> ((\<exists>e. res = Inl e) \<or>
         (\<exists>r k. res = Inr (r, k) \<and> 0 \<le> r \<and> r \<le> int n
                \<and> get_max_num_tokens self q t nc r = Inr (Some k)))"
proof (induction n)
  case 0
  show ?case
  proof (cases "get_max_num_tokens self q t nc 0")
    case (Inl e)
    then show ?thesis using trimmed_fit_error[OF Inl] by simp
  next
    case (Inr r)
    show ?thesis
    proof (cases r)
      case None
      then show ?thesis using trimmed_fit_fails[of self q t nc 0 drop_rows] Inr by simp
    next
      case (Some k)
      then show ?thesis using trimmed_fit_fits[of self q t nc 0 k drop_rows] Inr by simp
    qed
  qed
next
  case (Suc n)
  show ?case
  proof (cases "get_max_num_tokens self q t nc (int (Suc n))")
    case (Inl e)
    then show ?thesis using trimmed_fit_error[OF Inl] by simp
  next
    case (Inr r)
    show ?thesis
    proof (cases r)
      case (Some k)
      have "trimmed_fit self q t nc (int (Suc n)) drop_rows = Some (Inr (int (Suc n), k))"
        using Inr Some by (intro trimmed_fit_fits) simp
      then show ?thesis using Inr Some by simp
    next
      case None
      show ?thesis
      proof (cases drop_rows)
        case False
        have "trimmed_fit self q t nc (int (Suc n)) drop_rows
                = Some (Inl (ValueError ''Sequence too long''))"
          using Inr None False by (intro trimmed_fit_fails) simp_all
        then show ?thesis by simp
      next
        case True
        have "trimmed_fit self q t nc (int (Suc n)) True
                = trimmed_fit self q t nc (int (Suc n) - 1) True"
          using Inr None by (intro trimmed_fit_drops_row) simp_all
        then have e: "trimmed_fit self q t nc (int (Suc n)) drop_rows
                = trimmed_fit self q t nc (int n) drop_rows"
          using True by simp
        from Suc.IH obtain res where
          res: "trimmed_fit self q t nc (int n) drop_rows = Some res"
          "(\<exists>e. res = Inl e) \<or>
           (\<exists>r k. res = Inr (r, k) \<and> 0 \<le> r \<and> r \<le> int n
                  \<and> get_max_num_tokens self q t nc r = Inr (Some k))"
          by blast
        from res(2) have "(\<exists>e. res = Inl e) \<or>
           (\<exists>r k. res = Inr (r, k) \<and> 0 \<le> r \<and> r \<le> int (Suc n)
                  \<and> get_max_num_tokens self q t nc r = Inr (Some k))"
          by auto
        with res(1) e show ?thesis by simp
      qed
    qed
  qed
qed



subsection \<open>C6: the policy of the budget fitter\<close>



subsection \<open>C7: the budget fitter and a larger model length\<close>

text \<open>
  C7 as the specification has it: for a fixed table and question a larger
  \<open>model_max_length\<close> never lowers the fitted token cap. With row dropping the fitter
  first looks for the largest row count that fits at all, and only then for the cap, so a
  larger model length can trade a lower cap for a row more. On the second example table,
  with an empty question, a model length of 7 fits one row with a cap of 2 tokens per
  cell, and a model length of 8 fits both rows with a cap of 1.
\<close>

theorem budget_fitter_cap_counterexample:
  "trimmed_fit (example_tokenizer\<lparr>model_max_length := 7\<rparr>) []
     (tokenize_table (example_tokenizer\<lparr>model_max_length := 7\<rparr>) example_cities)
     2 2 True = Some (Inr (1, 2))
   \<and> trimmed_fit (example_tokenizer\<lparr>model_max_length := 8\<rparr>) []
     (tokenize_table (example_tokenizer\<lparr>model_max_length := 8\<rparr>) example_cities)
     2 2 True = Some (Inr (2, 1))"
  by code_simp

lemma tokenize_table_model_max_length:
  "tokenize_table (self\<lparr>model_max_length := m\<rparr>) table = tokenize_table self table"
  by (simp add: tokenize_table_def cong: if_cong)

lemma get_max_num_tokens_mono:
  assumes le: "model_max_length self \<le> m"
    and fit: "get_max_num_tokens self q (tokenize_table self table) nc nr = Inr (Some k)"
  shows "\<exists>k'. k \<le> k' \<and>
     get_max_num_tokens (self\<lparr>model_max_length := m\<rparr>) q (tokenize_table self table) nc nr
       = Inr (Some k')"
proof -
  let ?t = "tokenize_table self table"
  let ?self' = "self\<lparr>model_max_length := m\<rparr>"
  let ?M = "capped_max_num_tokens self ?t"
  let ?b = "get_token_budget self q"
  let ?b' = "get_token_budget ?self' q"
  have b: "?b \<le> ?b'" using le by (simp add: get_token_budget_def)
  from get_max_num_tokens_tokenize_table[of self table nc nr q]
  obtain j where j: "0 \<le> j" "j \<le> ?M"
    "\<forall>i. 0 \<le> i \<and> i < j \<longrightarrow> cost_of ?t nc nr (i + 1) \<le> ?b"
    and g: "get_max_num_tokens self q ?t nc nr =
         Inr (if j < ?M \<and> (0 \<le> cell_trim_length self \<or> j = 0) then None else Some j)"
    by blast
  from get_max_num_tokens_tokenize_table[of ?self' table nc nr q]
  obtain j' where j': "0 \<le> j'" "j' \<le> ?M"
    "j' < ?M \<longrightarrow> ?b' < cost_of ?t nc nr (j' + 1)"
    and g': "get_max_num_tokens ?self' q ?t nc nr =
         Inr (if j' < ?M \<and> (0 \<le> cell_trim_length self \<or> j' = 0) then None else Some j')"
    by (auto simp: tokenize_table_model_max_length capped_max_num_tokens_model_max_length)
  from fit g have kj: "k = j" and ok: "\<not> (j < ?M \<and> (0 \<le> cell_trim_length self \<or> j = 0))"
    by (auto split: if_splits)
  have jj: "j \<le> j'"
  proof (rule ccontr)
    assume "\<not> j \<le> j'"
    then have lt: "j' < j" by simp
    with j(2) have "j' < ?M" by simp
    with j'(3) have "?b' < cost_of ?t nc nr (j' + 1)" by simp
    moreover from j(3) j'(1) lt have "cost_of ?t nc nr (j' + 1) \<le> ?b" by blast
    ultimately show False using b by simp
  qed
  have "\<not> (j' < ?M \<and> (0 \<le> cell_trim_length self \<or> j' = 0))"
    using ok jj j(1) j(2) j'(2) by auto
  with g' have "get_max_num_tokens ?self' q ?t nc nr = Inr (Some j')" by simp
  with jj kj show ?thesis by blast
qed

lemma get_max_num_tokens_tokenize_table_total:
  "\<exists>r. get_max_num_tokens self q (tokenize_table self table) nc nr = Inr r"
  using get_max_num_tokens_tokenize_table[of self table nc nr q] by blast

lemma trimmed_fit_mono:
  assumes le: "model_max_length self \<le> m"
  shows "trimmed_fit self q (tokenize_table self table) nc (int n) drop_rows = Some (Inr (r, k))
   \<Longrightarrow> \<exists>r' k'. trimmed_fit (self\<lparr>model_max_length := m\<rparr>) q (tokenize_table self table) nc
                  (int n) drop_rows = Some (Inr (r', k')) \<and> r \<le> r'"
proof (induction n arbitrary: r k)
  case 0
  let ?t = "tokenize_table self table"
  from get_max_num_tokens_tokenize_table_total[of self q table nc 0]
  obtain g where g: "get_max_num_tokens self q ?t nc 0 = Inr g" by blast
  show ?case
  proof (cases g)
    case None
    from trimmed_fit_fails[of self q ?t nc 0 drop_rows] g None "0.prems"
    show ?thesis by simp
  next
    case (Some j)
    from trimmed_fit_fits[of self q ?t nc 0 j drop_rows] g Some "0.prems"
    have r: "r = 0" by simp
    from get_max_num_tokens_mono[OF le, of q table nc 0 j] g Some obtain j' where
      "get_max_num_tokens (self\<lparr>model_max_length := m\<rparr>) q ?t nc 0 = Inr (Some j')"
      by auto
    from trimmed_fit_fits[OF this, of drop_rows] r show ?thesis by simp
  qed
next
  case (Suc n)
  let ?t = "tokenize_table self table"
  let ?self' = "self\<lparr>model_max_length := m\<rparr>"
  from get_max_num_tokens_tokenize_table_total[of self q table nc "int (Suc n)"]
  obtain g where g: "get_max_num_tokens self q ?t nc (int (Suc n)) = Inr g" by blast
  show ?case
  proof (cases g)
    case (Some j)
    from trimmed_fit_fits[of self q ?t nc "int (Suc n)" j drop_rows] g Some Suc.prems
    have r: "r = int (Suc n)" by simp
    from get_max_num_tokens_mono[OF le, of q table nc "int (Suc n)" j] g Some obtain j' where
      "get_max_num_tokens ?self' q ?t nc (int (Suc n)) = Inr (Some j')"
      by auto
    from trimmed_fit_fits[OF this, of drop_rows] r show ?thesis by simp
  next
    case None
    have gn: "get_max_num_tokens self q ?t nc (int (Suc n)) = Inr None"
      using g None by simp
    have dr: "drop_rows"
    proof (rule ccontr)
      assume "\<not> drop_rows"
      with trimmed_fit_fails[OF gn, of drop_rows] Suc.prems show False by simp
    qed
    from trimmed_fit_drops_row[OF gn] dr Suc.prems
    have prev: "trimmed_fit self q ?t nc (int n) drop_rows = Some (Inr (r, k))" by simp
    from Suc.IH[OF prev] obtain r' k' where
      ih: "trimmed_fit ?self' q ?t nc (int n) drop_rows = Some (Inr (r', k'))" "r \<le> r'"
      by blast
    from trimmed_fit_returns[of self q ?t nc n drop_rows] prev
    have rn: "r \<le> int n" by auto
    from get_max_num_tokens_tokenize_table_total[of ?self' q table nc "int (Suc n)",
        unfolded tokenize_table_model_max_length]
    obtain g' where g': "get_max_num_tokens ?self' q ?t nc (int (Suc n)) = Inr g'" by blast
    show ?thesis
    proof (cases g')
      case None
      then have "get_max_num_tokens ?self' q ?t nc (int (Suc n)) = Inr None"
        using g' by simp
      from trimmed_fit_drops_row[OF this] dr ih show ?thesis by simp
    next
      case (Some j')
      then have "get_max_num_tokens ?self' q ?t nc (int (Suc n)) = Inr (Some j')"
        using g' by simp
      from trimmed_fit_fits[OF this, of drop_rows] rn show ?thesis by simp
    qed
  qed
qed

text \<open>
  C7, amended: on a tokenized table and for a fixed question, a larger
  \<open>model_max_length\<close> never lowers the cap that \<^verbatim>\<open>_get_max_num_tokens\<close> returns for a
  fixed row count, and so never lowers the fitted cap when rows are not dropped; and with
  or without row dropping it never makes a fit fail that succeeded, and never lowers the
  fitted row count.
\<close>

theorem budget_fitter_monotone:
  "model_max_length self \<le> m \<longrightarrow>
    (get_max_num_tokens self q (tokenize_table self table) nc nr = Inr (Some k) \<longrightarrow>
       (\<exists>k'. k \<le> k' \<and>
          get_max_num_tokens (self\<lparr>model_max_length := m\<rparr>) q (tokenize_table self table)
            nc nr = Inr (Some k')))
    \<and> (trimmed_fit self q (tokenize_table self table) nc nr False = Some (Inr (r, k)) \<longrightarrow>
       (\<exists>k'. k \<le> k' \<and>
          trimmed_fit (self\<lparr>model_max_length := m\<rparr>) q (tokenize_table self table) nc nr
            False = Some (Inr (r, k'))))
    \<and> (0 \<le> nr \<and>
        trimmed_fit self q (tokenize_table self table) nc nr drop_rows = Some (Inr (r, k)) \<longrightarrow>
       (\<exists>r' k'. r \<le> r' \<and>
          trimmed_fit (self\<lparr>model_max_length := m\<rparr>) q (tokenize_table self table) nc nr
            drop_rows = Some (Inr (r', k'))))"
proof (intro impI conjI)
  assume le: "model_max_length self \<le> m"
  let ?t = "tokenize_table self table"
  let ?self' = "self\<lparr>model_max_length := m\<rparr>"
  {
    assume "get_max_num_tokens self q ?t nc nr = Inr (Some k)"
    from get_max_num_tokens_mono[OF le this]
    show "\<exists>k'. k \<le> k' \<and> get_max_num_tokens ?self' q ?t nc nr = Inr (Some k')" .
  }
  {
    assume fit: "trimmed_fit self q ?t nc nr False = Some (Inr (r, k))"
    from get_max_num_tokens_tokenize_table_total[of self q table nc nr]
    obtain g where g: "get_max_num_tokens self q ?t nc nr = Inr g" by blast
    have gk: "get_max_num_tokens self q ?t nc nr = Inr (Some k)" and r: "r = nr"
    proof -
      show "get_max_num_tokens self q ?t nc nr = Inr (Some k)"
      proof (cases g)
        case None
        with trimmed_fit_fails[of self q ?t nc nr False] g fit show ?thesis by simp
      next
        case (Some j)
        with trimmed_fit_fits[of self q ?t nc nr j False] g fit show ?thesis by simp
      qed
      from trimmed_fit_fits[OF this, of False] fit show "r = nr" by simp
    qed
    from get_max_num_tokens_mono[OF le gk] obtain k' where
      k': "k \<le> k'" "get_max_num_tokens ?self' q ?t nc nr = Inr (Some k')" by blast
    from trimmed_fit_fits[OF k'(2), of False] k'(1) r
    show "\<exists>k'. k \<le> k' \<and> trimmed_fit ?self' q ?t nc nr False = Some (Inr (r, k'))"
      by simp
  }
  {
    assume h: "0 \<le> nr \<and> trimmed_fit self q ?t nc nr drop_rows = Some (Inr (r, k))"
    then have "trimmed_fit self q ?t nc (int (nat nr)) drop_rows = Some (Inr (r, k))"
      by simp
    from trimmed_fit_mono[OF le this] h
    show "\<exists>r' k'. r \<le> r' \<and> trimmed_fit ?self' q ?t nc nr drop_rows = Some (Inr (r', k'))"
      by auto
  }
qed

theorem budget_fitter_monotone_witness:
  "model_max_length (example_tokenizer\<lparr>model_max_length := 7\<rparr>) \<le> 8
   \<and> get_max_num_tokens (example_tokenizer\<lparr>model_max_length := 7\<rparr>) []
       (tokenize_table (example_tokenizer\<lparr>model_max_length := 7\<rparr>) example_cities) 2 1
       = Inr (Some 2)
   \<and> get_max_num_tokens (example_tokenizer\<lparr>model_max_length := 8\<rparr>) []
       (tokenize_table (example_tokenizer\<lparr>model_max_length := 7\<rparr>) example_cities) 2 1
       = Inr (Some 2)
   \<and> trimmed_fit (example_tokenizer\<lparr>model_max_length := 7\<rparr>) []
       (tokenize_table (example_tokenizer\<lparr>model_max_length := 7\<rparr>) example_cities) 2 1
       False = Some (Inr (1, 2))
   \<and> trimmed_fit (example_tokenizer\<lparr>model_max_length := 8\<rparr>) []
       (tokenize_table (example_tokenizer\<lparr>model_max_length := 7\<rparr>) example_cities) 2 1
       False = Some (Inr (1, 2))
   \<and> trimmed_fit (example_tokenizer\<lparr>model_max_length := 7\<rparr>) []
       (tokenize_table (example_tokenizer\<lparr>model_max_length := 7\<rparr>) example_cities) 2 2
       True = Some (Inr (1, 2))
   \<and> trimmed_fit (example_tokenizer\<lparr>model_max_length := 8\<rparr>) []
       (tokenize_table (example_tokenizer\<lparr>model_max_length := 7\<rparr>) example_cities) 2 2
       True = Some (Inr (2, 1))"
proof -
  let ?A = "example_tokenizer\<lparr>model_max_length := 7\<rparr>"
  have A8: "?A\<lparr>model_max_length := 8\<rparr> = example_tokenizer\<lparr>model_max_length := 8\<rparr>"
    by simp
  have e0: "model_max_length ?A \<le> 8" by code_simp
  have e1: "get_max_num_tokens ?A [] (tokenize_table ?A example_cities) 2 1 = Inr (Some 2)"
    by code_simp
  have e2: "trimmed_fit ?A [] (tokenize_table ?A example_cities) 2 1 False
              = Some (Inr (1, 2))"
    by code_simp
  have e3: "trimmed_fit ?A [] (tokenize_table ?A example_cities) 2 2 True
              = Some (Inr (1, 2))"
    by code_simp
  have f1: "get_max_num_tokens (example_tokenizer\<lparr>model_max_length := 8\<rparr>) []
              (tokenize_table ?A example_cities) 2 1 = Inr (Some 2)"
    by code_simp
  have f2: "trimmed_fit (example_tokenizer\<lparr>model_max_length := 8\<rparr>) []
              (tokenize_table ?A example_cities) 2 1 False = Some (Inr (1, 2))"
    by code_simp
  have f3: "trimmed_fit (example_tokenizer\<lparr>model_max_length := 8\<rparr>) []
              (tokenize_table ?A example_cities) 2 2 True = Some (Inr (2, 1))"
    by code_simp
  note m1 = budget_fitter_monotone[of ?A 8 "[]" example_cities 2 1 2 1 False, unfolded A8]
  note m2 = budget_fitter_monotone[of ?A 8 "[]" example_cities 2 2 2 1 True, unfolded A8]
  from m1 m2 e0 e1 e2 e3 f1 f2 f3 show ?thesis by simp
qed

subsection \<open>The dictionary of cell relations\<close>











subsection \<open>The code of the relations of a cell\<close>












subsection \<open>C3: decoding a batch\<close>

text \<open>
  C3: on a batch of two elements, the first with no table token and the second with
  probability 1 on the one token of the cell in row 0 and column 0, the decoder returns a
  list of one element, the coordinates of the second batch element: the first element has
  no entry in the output, where the empty list of coordinates was due, and the entry of
  the second element stands at the place of the first.
\<close>

theorem convert_logits_to_predictions_skips:
  "convert_logits_to_predictions (1 / 2) [example_without_table, example_with_cell]
     = Inr [[(0, 0)]]"
  by code_simp

end
